theory Spec2Isabelle
  imports Complex_Main
begin

section \<open>Knover: the generator's decoding step and the NSP reader's negative sampling\<close>

text \<open>
  This theory embeds \<^verbatim>\<open>knover/modules/generator.py\<close> (class \<^verbatim>\<open>Generator\<close>) and
  \<^verbatim>\<open>knover/data/nsp_reader.py\<close> (\<^verbatim>\<open>NSPReader._mix_negative_sample\<close>).

  Conventions of the embedding.
  \<^item> A \<^verbatim>\<open>float32\<close> tensor entry is a \<open>real\<close>, and the operations are those of the reals,
    except where the result of the program depends on the rounding: the two operations that
    add and take away the \<^verbatim>\<open>-1e9\<close> penalty of the end-of-sequence token (lines 167 and 174)
    are also given with the rounding to \<^verbatim>\<open>float32\<close> (\<open>fl32\<close>, \<open>length_stage_f32\<close>). Overflow
    and NaN are not modelled. The constants \<^verbatim>\<open>-1e9\<close>, \<^verbatim>\<open>1e-9\<close> and \<^verbatim>\<open>1e3\<close> are the
    exact reals.
  \<^item> A tensor of shape \<^verbatim>\<open>[N, vocab_size]\<close> is handled one row at a time (every operation of
    the loop body up to \<^verbatim>\<open>layers.beam_search\<close> works on each row on its own); a row is
    a \<open>real list\<close>. A tensor of shape \<^verbatim>\<open>[N, 1]\<close> (\<^verbatim>\<open>is_finished\<close>, \<^verbatim>\<open>pre_scores\<close>)
    contributes one \<open>real\<close> to each row.
  \<^item> \<^verbatim>\<open>inference\<close> builds a static graph: the Python statements inside
    \<^verbatim>\<open>with while_op.block():\<close> run once, when the graph is built, and choose the operators
    of the loop body; the operators then run once per iteration.
  \<^item> Python integers are \<open>int\<close>; \<^verbatim>\<open>step_idx\<close> (an \<^verbatim>\<open>int64\<close> tensor that counts up from 0
    to at most \<^verbatim>\<open>max_dec_len\<close>) is an \<open>int\<close> as well.
\<close>

subsection \<open>Errors and configuration\<close>

datatype error =
    ValueError string
  | IndexError
  | TypeError
  | InvalidArgument

text \<open>The attributes \<^verbatim>\<open>Generator.__init__\<close> copies from \<^verbatim>\<open>args\<close>.\<close>

record generator =
  min_dec_len :: int
  max_dec_len :: int
  bos_id :: int
  eos_id :: int
  unk_id :: int
  mask_id :: "int option"
  vocab_size :: int
  decoding_strategy :: string
  ignore_unk :: bool
  temperature :: real
  num_samples :: "int option"
  topk :: int
  topp :: real
  beam_size :: int
  length_penalty :: real
  length_average :: bool
  ngram_blocking :: int

subsection \<open>The penalty vectors built before the loop\<close>

text \<open>\<^verbatim>\<open>np.zeros(n, dtype="float32")\<close>: a negative dimension raises \<^verbatim>\<open>ValueError\<close>.\<close>

definition np_zeros :: "int \<Rightarrow> error + real list" where
  "np_zeros n =
     (if n < 0 then Inl (ValueError ''negative dimensions are not allowed'')
      else Inr (replicate (nat n) 0))"

text \<open>
  The position a NumPy index denotes in an array of length \<open>n\<close>: a negative index counts
  from the end, an index out of range raises \<^verbatim>\<open>IndexError\<close>.
\<close>

definition np_index :: "nat \<Rightarrow> int \<Rightarrow> nat option" where
  "np_index n i =
     (if 0 \<le> i \<and> i < int n then Some (nat i)
      else if - int n \<le> i \<and> i < 0 then Some (nat (int n + i))
      else None)"

definition np_setitem :: "real list \<Rightarrow> int \<Rightarrow> real \<Rightarrow> error + real list" where
  "np_setitem a i v =
     (case np_index (length a) i of
        None \<Rightarrow> Inl IndexError
      | Some k \<Rightarrow> Inr (a[k := v]))"

text \<open>
  \<^verbatim>\<open>eos_penalty = np.zeros(self.vocab_size); eos_penalty[self.eos_id] = -1e9\<close>
\<close>

definition eos_penalty :: "generator \<Rightarrow> error + real list" where
  "eos_penalty g =
     (case np_zeros (vocab_size g) of
        Inl e \<Rightarrow> Inl e
      | Inr z \<Rightarrow> np_setitem z (eos_id g) (- 1000000000))"

text \<open>
  \<^verbatim>\<open>token_penalty\<close>: \<^verbatim>\<open>-1e9\<close> at \<^verbatim>\<open>unk_id\<close> if \<^verbatim>\<open>ignore_unk\<close>, and at \<^verbatim>\<open>mask_id\<close> if it
  is not \<^verbatim>\<open>None\<close> and not negative.
\<close>

definition token_penalty :: "generator \<Rightarrow> error + real list" where
  "token_penalty g =
     (case np_zeros (vocab_size g) of
        Inl e \<Rightarrow> Inl e
      | Inr z \<Rightarrow>
          (case (if ignore_unk g then np_setitem z (unk_id g) (- 1000000000) else Inr z) of
             Inl e \<Rightarrow> Inl e
           | Inr z1 \<Rightarrow>
               (case mask_id g of
                  None \<Rightarrow> Inr z1
                | Some m \<Rightarrow> if m \<ge> 0 then np_setitem z1 m (- 1000000000) else Inr z1)))"

text \<open>The row of the vocabulary that \<^verbatim>\<open>eos_id\<close> denotes.\<close>

definition eos_index :: "generator \<Rightarrow> nat option" where
  "eos_index g = (if vocab_size g < 0 then None else np_index (nat (vocab_size g)) (eos_id g))"

subsection \<open>The strategy chosen when the loop body is built\<close>

datatype branch = BeamSearch | Sampling | TopkSampling | ToppSampling

text \<open>\<^verbatim>\<open>s.startswith(p)\<close>\<close>

definition startswith :: "string \<Rightarrow> string \<Rightarrow> bool" where
  "startswith s p = (take (length p) s = p)"

text \<open>
  The \<^verbatim>\<open>if\<close>/\<^verbatim>\<open>elif\<close> chain of lines 181 to 214, in its order: equality with
  \<^verbatim>\<open>"beam_search"\<close>, then the three prefix tests, then \<^verbatim>\<open>raise ValueError\<close>.
\<close>

definition select_branch :: "string \<Rightarrow> error + branch" where
  "select_branch s =
     (if s = ''beam_search'' then Inr BeamSearch
      else if startswith s ''sampling'' then Inr Sampling
      else if startswith s ''topk_sampling'' then Inr TopkSampling
      else if startswith s ''topp_sampling'' then Inr ToppSampling
      else Inl (ValueError s))"

text \<open>
  Lines 125 to 128: the beam size the loop uses is \<^verbatim>\<open>self.beam_size\<close> for beam search and 1
  otherwise.
\<close>

definition used_beam_size :: "generator \<Rightarrow> int" where
  "used_beam_size g = (if decoding_strategy g = ''beam_search'' then beam_size g else 1)"

subsection \<open>Penalties on the logits of one candidate (lines 158 to 174)\<close>

definition elementwise_add :: "real list \<Rightarrow> real list \<Rightarrow> real list" where
  "elementwise_add xs ys = map2 (+) xs ys"

definition elementwise_sub :: "real list \<Rightarrow> real list \<Rightarrow> real list" where
  "elementwise_sub xs ys = map2 (-) xs ys"

text \<open>
  Lines 158 to 161. The n-gram blocking processor (\<^verbatim>\<open>knover.modules.ops\<close>) is a parameter:
  \<open>ngram logits is_finished\<close> is what its \<^verbatim>\<open>apply\<close> returns for this row.
\<close>

definition token_stage ::
  "generator \<Rightarrow> (real list \<Rightarrow> real \<Rightarrow> real list) \<Rightarrow> real list \<Rightarrow> real \<Rightarrow> real list \<Rightarrow> real list" where
  "token_stage g ngram tok_pen is_finished logits =
     (let logits = elementwise_add logits tok_pen
      in if ngram_blocking g > 0 then ngram logits is_finished else logits)"

text \<open>
  Lines 163 to 171: \<^verbatim>\<open>layers.case([(step_idx < min_len, logits + eos_penalty)],
  default=logits)\<close>.
\<close>

definition min_len_stage :: "generator \<Rightarrow> real list \<Rightarrow> int \<Rightarrow> real list \<Rightarrow> real list" where
  "min_len_stage g eos_pen step_idx logits =
     (let min_len_cond = step_idx < min_dec_len g
      in if min_len_cond then elementwise_add logits eos_pen else logits)"

text \<open>
  Lines 173 and 174: \<^verbatim>\<open>logits - state["is_finished"] * eos_penalty\<close>; \<open>is_finished\<close> is the
  candidate's flag as a number (0 or 1).
\<close>

definition finished_stage :: "real list \<Rightarrow> real \<Rightarrow> real list \<Rightarrow> real list" where
  "finished_stage eos_pen is_finished logits =
     (let the_eos_penalty = map (\<lambda>p. is_finished * p) eos_pen
      in elementwise_sub logits the_eos_penalty)"

definition length_stage ::
  "generator \<Rightarrow> real list \<Rightarrow> int \<Rightarrow> real \<Rightarrow> real list \<Rightarrow> real list" where
  "length_stage g eos_pen step_idx is_finished logits =
     finished_stage eos_pen is_finished (min_len_stage g eos_pen step_idx logits)"

definition penalized_logits ::
  "generator \<Rightarrow> (real list \<Rightarrow> real \<Rightarrow> real list) \<Rightarrow> real list \<Rightarrow> real list \<Rightarrow>
   int \<Rightarrow> real \<Rightarrow> real list \<Rightarrow> real list" where
  "penalized_logits g ngram eos_pen tok_pen step_idx is_finished logits =
     length_stage g eos_pen step_idx is_finished
       (token_stage g ngram tok_pen is_finished logits)"

text \<open>Line 177: \<^verbatim>\<open>layers.softmax(logits / self.temperature)\<close> on one row.\<close>

definition softmax :: "real list \<Rightarrow> real list" where
  "softmax xs = map (\<lambda>x. exp x / sum_list (map exp xs)) xs"

definition get_probs :: "generator \<Rightarrow> real list \<Rightarrow> real list" where
  "get_probs g logits = softmax (map (\<lambda>x. x / temperature g) logits)"

subsection \<open>The length penalties with the rounding of \<^verbatim>\<open>float32\<close>\<close>

text \<open>
  \<open>length_stage\<close> above adds and subtracts over the reals. The program's tensors are
  \<^verbatim>\<open>float32\<close> (lines 130 and 156), so each of \<^verbatim>\<open>logits + eos_penalty\<close>,
  \<^verbatim>\<open>is_finished * eos_penalty\<close> and \<^verbatim>\<open>logits - the_eos_penalty\<close> is rounded to the nearest
  \<^verbatim>\<open>float32\<close> value, a tie going to the value with an even significand.

  \<open>rne\<close> rounds a real to the nearest integer, a tie to the even one.
\<close>

definition rne :: "real \<Rightarrow> int" where
  "rne y =
     (let f = \<lfloor>y\<rfloor>; d = y - real_of_int f
      in if d < 1 / 2 then f else if 1 / 2 < d then f + 1 else if even f then f else f + 1)"

text \<open>
  \<open>fl32 x\<close> is the \<^verbatim>\<open>float32\<close> value nearest to \<open>x\<close>: with \<open>2 ^ e \<le> |x| < 2 ^ (e + 1)\<close>
  the values are the multiples of \<open>2 ^ (e - 23)\<close> (24 significant bits); below \<open>2 ^ (- 126)\<close>
  the spacing stays \<open>2 ^ (- 149)\<close>. Values beyond the largest finite \<^verbatim>\<open>float32\<close> are not
  treated.
\<close>

definition fl32 :: "real \<Rightarrow> real" where
  "fl32 x =
     (if x = 0 then 0
      else (let e = max \<lfloor>log 2 \<bar>x\<bar>\<rfloor> (- 126);
                ulp = 2 powr (real_of_int e - 23)
            in ulp * real_of_int (rne (x / ulp))))"

text \<open>Lines 163 to 174 again, each operation rounded.\<close>

definition elementwise_add_f32 :: "real list \<Rightarrow> real list \<Rightarrow> real list" where
  "elementwise_add_f32 xs ys = map2 (\<lambda>x y. fl32 (x + y)) xs ys"

definition elementwise_sub_f32 :: "real list \<Rightarrow> real list \<Rightarrow> real list" where
  "elementwise_sub_f32 xs ys = map2 (\<lambda>x y. fl32 (x - y)) xs ys"

definition min_len_stage_f32 :: "generator \<Rightarrow> real list \<Rightarrow> int \<Rightarrow> real list \<Rightarrow> real list" where
  "min_len_stage_f32 g eos_pen step_idx logits =
     (let min_len_cond = step_idx < min_dec_len g
      in if min_len_cond then elementwise_add_f32 logits eos_pen else logits)"

definition finished_stage_f32 :: "real list \<Rightarrow> real \<Rightarrow> real list \<Rightarrow> real list" where
  "finished_stage_f32 eos_pen is_finished logits =
     (let the_eos_penalty = map (\<lambda>p. fl32 (is_finished * p)) eos_pen
      in elementwise_sub_f32 logits the_eos_penalty)"

definition length_stage_f32 ::
  "generator \<Rightarrow> real list \<Rightarrow> int \<Rightarrow> real \<Rightarrow> real list \<Rightarrow> real list" where
  "length_stage_f32 g eos_pen step_idx is_finished logits =
     finished_stage_f32 eos_pen is_finished (min_len_stage_f32 g eos_pen step_idx logits)"

subsection \<open>The score of one proposal (lines 220 to 244)\<close>

text \<open>Line 225: \<^verbatim>\<open>layers.cast(topk_scores < 1e-9, topk_scores.dtype)\<close>.\<close>

definition small_prob_cond :: "real \<Rightarrow> real" where
  "small_prob_cond topk_score = (if topk_score < 1 / 1000000000 then 1 else 0)"

text \<open>Line 226: the value handed to \<^verbatim>\<open>layers.log\<close>.\<close>

definition clamp_score :: "real \<Rightarrow> real" where
  "clamp_score topk_score =
     topk_score * (1 - small_prob_cond topk_score)
       + 1 / 1000000000 * small_prob_cond topk_score"

text \<open>Lines 229 to 240, on the logarithm \<open>l\<close> of the clamped probability.\<close>

definition update_scores :: "generator \<Rightarrow> real \<Rightarrow> real \<Rightarrow> real \<Rightarrow> real \<Rightarrow> real" where
  "update_scores g pre_len cur_len l pre_score =
     (if length_average g then (l + pre_score * pre_len) / cur_len
      else if length_penalty g > 0 then
        (let pre_lp = ((5 + pre_len) / 6) powr length_penalty g;
             cur_lp = ((5 + cur_len) / 6) powr length_penalty g
         in (l + pre_score * pre_lp) / cur_lp)
      else l + pre_score)"

text \<open>
  Lines 220 to 240 for one proposal: \<^verbatim>\<open>pre_len\<close> is \<^verbatim>\<open>step_idx\<close> before the increment of
  line 221 and \<^verbatim>\<open>cur_len\<close> is \<^verbatim>\<open>step_idx\<close> after it.
\<close>

definition accu_scores :: "generator \<Rightarrow> int \<Rightarrow> real \<Rightarrow> real \<Rightarrow> real" where
  "accu_scores g step_idx topk_score pre_score =
     (let pre_len = real_of_int step_idx;
          step_idx' = step_idx + 1;
          cur_len = real_of_int step_idx'
      in update_scores g pre_len cur_len (ln (clamp_score topk_score)) pre_score)"

text \<open>Lines 241 to 244: the mask by \<^verbatim>\<open>is_finished\<close> and the override of a clamped proposal.\<close>

definition mask_scores :: "real \<Rightarrow> real \<Rightarrow> real \<Rightarrow> real \<Rightarrow> real" where
  "mask_scores accu pre_score is_finished small =
     (let x = accu * (1 - is_finished);
          y = pre_score * is_finished;
          accu = x + y
      in accu * (1 - small) - 1000000000 * small)"

definition score_step :: "generator \<Rightarrow> int \<Rightarrow> real \<Rightarrow> real \<Rightarrow> real \<Rightarrow> real" where
  "score_step g step_idx topk_score pre_score is_finished =
     mask_scores (accu_scores g step_idx topk_score pre_score) pre_score is_finished
       (small_prob_cond topk_score)"

text \<open>
  The score of one candidate that is never finished, over successive steps with one proposal
  each (a non-beam strategy): the score selected at a step is \<^verbatim>\<open>pre_scores\<close> at the next.
\<close>

fun run_scores :: "generator \<Rightarrow> int \<Rightarrow> real \<Rightarrow> real list \<Rightarrow> real" where
  "run_scores g step_idx score [] = score"
| "run_scores g step_idx score (p # ps) =
     run_scores g (step_idx + 1) (score_step g step_idx p score 0) ps"

subsection \<open>Candidate selection for one row (lines 181 to 218)\<close>

definition cast_bool :: "bool \<Rightarrow> real" where
  "cast_bool b = (if b then 1 else 0)"

text \<open>
  \<^verbatim>\<open>layers.argsort(x, descending=True)\<close> of Paddle: the sorted values and the permutation
  of the indices. Equal values are left in their order (the first index comes first).
\<close>

definition argsort_desc :: "real list \<Rightarrow> real list \<times> nat list" where
  "argsort_desc x =
     (let sorted_idx = sort_key (\<lambda>i. - (x ! i)) [0..<length x]
      in (map (\<lambda>i. x ! i) sorted_idx, sorted_idx))"

text \<open>
  \<^verbatim>\<open>layers.topk(input, k)\<close> of Paddle: the \<open>k\<close> largest values, largest first, and their
  indices; \<open>k\<close> must be between 1 and the length of the row.
\<close>

definition layers_topk :: "real list \<Rightarrow> int \<Rightarrow> error + (real list \<times> nat list)" where
  "layers_topk x k =
     (if k < 1 \<or> int (length x) < k then Inl InvalidArgument
      else (let (sorted_x, sorted_idx) = argsort_desc x
            in Inr (take (nat k) sorted_x, take (nat k) sorted_idx)))"

text \<open>\<^verbatim>\<open>layers.cumsum(x, axis=1, exclusive=True)\<close>: entry \<open>i\<close> is the sum of the entries before \<open>i\<close>.\<close>

fun cumsum_from :: "real \<Rightarrow> real list \<Rightarrow> real list" where
  "cumsum_from acc [] = []"
| "cumsum_from acc (x # xs) = acc # cumsum_from (acc + x) xs"

definition cumsum_exclusive :: "real list \<Rightarrow> real list" where
  "cumsum_exclusive xs = cumsum_from 0 xs"

text \<open>\<^verbatim>\<open>paddle.index_sample(sorted_idx, ids)\<close> on one row: the entry at the sampled rank.\<close>

definition index_sample :: "nat list \<Rightarrow> nat \<Rightarrow> error + nat" where
  "index_sample sorted_idx r =
     (if r < length sorted_idx then Inr (sorted_idx ! r) else Inl InvalidArgument)"

text \<open>\<^verbatim>\<open>layers.one_hot(ids, depth)\<close> on one row; an id outside the depth is refused.\<close>

definition one_hot :: "nat \<Rightarrow> int \<Rightarrow> error + real list" where
  "one_hot i depth =
     (if int i < depth then Inr (map (\<lambda>j. cast_bool (j = i)) [0..<nat depth])
      else Inl InvalidArgument)"

text \<open>
  The truncated distribution of top-k sampling (lines 188 to 192): every entry at least as
  large as the k-th largest is kept, divided by the sum of the k largest.
\<close>

definition topk_probs_of :: "real list \<Rightarrow> real list \<Rightarrow> real list" where
  "topk_probs_of probs topk_probs =
     (let ge_cond = map (\<lambda>p. cast_bool (p \<ge> last topk_probs)) probs
      in map2 (\<lambda>p c. p * c / sum_list topk_probs) probs ge_cond)"

text \<open>
  The truncated distribution of top-p sampling (lines 196 to 208), over the ranks of the
  descending order, with the sort permutation.
\<close>

definition topp_candidates :: "generator \<Rightarrow> real list \<Rightarrow> real list \<times> nat list" where
  "topp_candidates g probs =
     (let (sorted_probs, sorted_idx) = argsort_desc probs;
          cum_sorted_probs = cumsum_exclusive sorted_probs;
          lt_cond = map (\<lambda>c. cast_bool (c < topp g)) cum_sorted_probs;
          candidate_probs = map2 (*) sorted_probs lt_cond
      in (candidate_probs, sorted_idx))"

definition topp_probs_of :: "generator \<Rightarrow> real list \<Rightarrow> real list \<times> nat list" where
  "topp_probs_of g probs =
     (let (candidate_probs, sorted_idx) = topp_candidates g probs
      in (map (\<lambda>c. c / sum_list candidate_probs) candidate_probs, sorted_idx))"

text \<open>
  Lines 185 to 214 for one row. The sampler \<^verbatim>\<open>ops.sampling_id\<close> is a parameter: applied to a
  row of probabilities it returns an index of that row. The result is the pair of
  \<^verbatim>\<open>sampling_ids\<close> and the variable \<^verbatim>\<open>probs\<close> as line 216 finds them: the top-k and top-p
  branches overwrite \<^verbatim>\<open>probs\<close> for the draw and assign \<^verbatim>\<open>old_probs\<close> back. Beam search
  does not come to these lines (\<open>select_proposals\<close> below never passes \<open>BeamSearch\<close>); the
  case is closed with the error of line 214.
\<close>

definition sampling_branch ::
  "generator \<Rightarrow> branch \<Rightarrow> (real list \<Rightarrow> nat) \<Rightarrow> real list \<Rightarrow> error + (nat \<times> real list)" where
  "sampling_branch g b sampling_id probs =
     (case b of
        Sampling \<Rightarrow> Inr (sampling_id probs, probs)
      | TopkSampling \<Rightarrow>
          (case layers_topk probs (topk g) of
             Inl e \<Rightarrow> Inl e
           | Inr (topk_probs, _) \<Rightarrow>
               (let old_probs = probs;
                    probs = topk_probs_of probs topk_probs;
                    sampling_ids = sampling_id probs;
                    probs = old_probs
                in Inr (sampling_ids, probs)))
      | ToppSampling \<Rightarrow>
          (let old_probs = probs;
               (probs, sorted_idx) = topp_probs_of g probs;
               sampling_ids = sampling_id probs
           in (case index_sample sorted_idx sampling_ids of
                 Inl e \<Rightarrow> Inl e
               | Inr sampling_ids \<Rightarrow> (let probs = old_probs in Inr (sampling_ids, probs))))
      | BeamSearch \<Rightarrow> Inl (ValueError (decoding_strategy g)))"

text \<open>
  Lines 216 to 218: the one-hot row of the sampled id, the probability at the sampled id and
  \<^verbatim>\<open>-1e3\<close> elsewhere, and its top 1.
\<close>

definition sampling_scores_of :: "real list \<Rightarrow> real list \<Rightarrow> real list" where
  "sampling_scores_of hot probs = map2 (\<lambda>s p. s * p - (1 - s) * 1000) hot probs"

definition select_proposals ::
  "generator \<Rightarrow> branch \<Rightarrow> (real list \<Rightarrow> nat) \<Rightarrow> real list \<Rightarrow> error + (real list \<times> nat list)" where
  "select_proposals g b sampling_id probs =
     (case b of
        BeamSearch \<Rightarrow> layers_topk probs (beam_size g)
      | _ \<Rightarrow>
          (case sampling_branch g b sampling_id probs of
             Inl e \<Rightarrow> Inl e
           | Inr (sampling_ids, probs) \<Rightarrow>
               (case one_hot sampling_ids (vocab_size g) of
                  Inl e \<Rightarrow> Inl e
                | Inr sampling_scores \<Rightarrow>
                    layers_topk (sampling_scores_of sampling_scores probs) 1)))"

text \<open>
  Lines 220 to 246 for one row: each proposal (probability, token id) with its accumulated
  score, as handed to \<^verbatim>\<open>layers.beam_search\<close>.
\<close>

definition scored_proposals ::
  "generator \<Rightarrow> int \<Rightarrow> real \<Rightarrow> real \<Rightarrow> real list \<times> nat list \<Rightarrow> (nat \<times> real) list" where
  "scored_proposals g step_idx pre_score is_finished sel =
     (case sel of (topk_scores, topk_indices) \<Rightarrow>
        zip topk_indices (map (\<lambda>p. score_step g step_idx p pre_score is_finished) topk_scores))"

text \<open>
  \<^verbatim>\<open>layers.beam_search\<close> of Paddle for one input example, with \<^verbatim>\<open>end_id = -1\<close> (no token id,
  so no beam is treated as ended by the operator): of the proposals of all the beams of the
  example, each tagged with the index of its beam, the \<open>beam_size\<close> with the highest scores,
  as (selected id, selected score, parent index).
\<close>

definition tag_parents :: "(nat \<times> real) list list \<Rightarrow> (nat \<times> real \<times> nat) list" where
  "tag_parents beams =
     concat (map (\<lambda>(parent, props). map (\<lambda>(i, s). (i, s, parent)) props)
                 (zip [0..<length beams] beams))"

definition beam_search_op :: "int \<Rightarrow> (nat \<times> real) list list \<Rightarrow> (nat \<times> real \<times> nat) list" where
  "beam_search_op k beams = take (nat k) (sort_key (\<lambda>(i, s, parent). - s) (tag_parents beams))"

text \<open>
  One iteration for an input example with a single beam under a non-beam strategy:
  lines 158 to 254.
\<close>

definition sampling_iteration ::
  "generator \<Rightarrow> branch \<Rightarrow> (real list \<Rightarrow> nat) \<Rightarrow> (real list \<Rightarrow> real \<Rightarrow> real list) \<Rightarrow>
   real list \<Rightarrow> real list \<Rightarrow> int \<Rightarrow> real \<Rightarrow> real \<Rightarrow> real list \<Rightarrow>
   error + (nat \<times> real \<times> nat) list" where
  "sampling_iteration g b sampling_id ngram eos_pen tok_pen step_idx pre_score is_finished logits =
     (let logits = penalized_logits g ngram eos_pen tok_pen step_idx is_finished logits;
          probs = get_probs g logits
      in (case select_proposals g b sampling_id probs of
            Inl e \<Rightarrow> Inl e
          | Inr sel \<Rightarrow>
              Inr (beam_search_op (used_beam_size g)
                     [scored_proposals g step_idx pre_score is_finished sel])))"

subsection \<open>The decoding loop (lines 121 to 123, 149 to 151 and 271 to 273)\<close>

text \<open>
  The loop is over an abstract state \<open>'st\<close> of the model: \<open>body st step_idx\<close> is the state that
  the operators of one iteration (lines 152 to 269) leave, given the state and the step index
  they start from, and \<open>is_finished st\<close> is the tensor \<^verbatim>\<open>state["is_finished"]\<close> (one number
  per candidate; \<^verbatim>\<open>layers.cast(..., "bool")\<close> reads non-zero as true).

  \<open>while_block\<close> is the block from its first operator on, entered with \<^verbatim>\<open>cond\<close> true: it
  returns the step index and the state after each iteration, in order. Line 221 increments
  \<^verbatim>\<open>step_idx\<close>; lines 271 to 273 assign \<^verbatim>\<open>cond\<close>.
\<close>

definition reduce_all_finished :: "real list \<Rightarrow> bool" where
  "reduce_all_finished fs = list_all (\<lambda>f. f \<noteq> 0) fs"

function while_block ::
  "int \<Rightarrow> ('st \<Rightarrow> int \<Rightarrow> 'st) \<Rightarrow> ('st \<Rightarrow> real list) \<Rightarrow> int \<Rightarrow> 'st \<Rightarrow> (int \<times> 'st) list" where
  "while_block max_len body is_finished step_idx st =
     (let st' = body st step_idx;
          step_idx' = step_idx + 1;
          length_cond = step_idx' < max_len;
          finish_cond = \<not> reduce_all_finished (is_finished st');
          cond = length_cond \<and> finish_cond
      in (step_idx', st') #
         (if cond then while_block max_len body is_finished step_idx' st' else []))"
  by pat_completeness auto
termination
  by (relation "measure (\<lambda>(max_len, body, is_finished, step_idx, st). nat (max_len - step_idx))")
     auto

declare while_block.simps [simp del]

text \<open>
  Lines 121 to 151: \<^verbatim>\<open>step_idx\<close> starts at 0 and the block is entered when
  \<^verbatim>\<open>step_idx < max_len\<close>.
\<close>

definition decoding_loop ::
  "generator \<Rightarrow> ('st \<Rightarrow> int \<Rightarrow> 'st) \<Rightarrow> ('st \<Rightarrow> real list) \<Rightarrow> 'st \<Rightarrow> (int \<times> 'st) list" where
  "decoding_loop g body is_finished st =
     (let max_len = max_dec_len g;
          step_idx = 0;
          cond = step_idx < max_len
      in if cond then while_block max_len body is_finished step_idx st else [])"

text \<open>The step indices the loop goes through, from the initial 0 on.\<close>

definition step_indices ::
  "generator \<Rightarrow> ('st \<Rightarrow> int \<Rightarrow> 'st) \<Rightarrow> ('st \<Rightarrow> real list) \<Rightarrow> 'st \<Rightarrow> int list" where
  "step_indices g body is_finished st = 0 # map fst (decoding_loop g body is_finished st)"


subsection \<open>The NSP reader: mixing negative samples\<close>

text \<open>
  The fields of \<^verbatim>\<open>NSPReader.Record\<close> that \<^verbatim>\<open>_mix_negative_sample\<close> reads or writes. The
  named tuple gives every field the default \<^verbatim>\<open>None\<close>; the fields that may be left at it
  are options.
\<close>

record nsp_record =
  token_ids :: "int list"
  type_ids :: "int list"
  pos_ids :: "int list"
  role_ids :: "int list option"
  tgt_start_idx :: int
  data_id :: "int option"
  label :: "int option"

text \<open>The attributes of the reader that the mixer uses.\<close>

record nsp_reader =
  mix_negative_sample :: bool
  neg_pool_size :: int
  position_style :: string
  use_role :: bool

text \<open>Python's slices \<^verbatim>\<open>xs[:i]\<close> and \<^verbatim>\<open>xs[j:]\<close>: a negative bound counts from the end.\<close>

definition slice_to :: "'a list \<Rightarrow> int \<Rightarrow> 'a list" where
  "slice_to xs i = (if i \<ge> 0 then take (nat i) xs else take (nat (int (length xs) + i)) xs)"

definition slice_from :: "'a list \<Rightarrow> int \<Rightarrow> 'a list" where
  "slice_from xs j = (if j \<ge> 0 then drop (nat j) xs else drop (nat (int (length xs) + j)) xs)"

text \<open>
  One pass of the loop of lines 63 to 83 at index \<open>i\<close>: \<^verbatim>\<open>pool[i]\<close> gets the label 1, and the
  negative record made of the context of \<^verbatim>\<open>pool[i]\<close> and the response of \<^verbatim>\<open>pool[j]\<close> is
  appended. Slicing \<^verbatim>\<open>None\<close> (a missing \<^verbatim>\<open>role_ids\<close>) raises \<^verbatim>\<open>TypeError\<close>.
\<close>

definition neg_sample_step ::
  "nsp_reader \<Rightarrow> nat \<Rightarrow> nsp_record list \<Rightarrow> nat \<Rightarrow> error + nsp_record list" where
  "neg_sample_step rd n_samples pool i =
     (let pool = pool[i := (pool ! i)\<lparr>label := Some 1\<rparr>];
          j = (i + 1) mod n_samples;
          idx_i = tgt_start_idx (pool ! i);
          idx_j = tgt_start_idx (pool ! j);
          new_token_ids = slice_to (token_ids (pool ! i)) idx_i @ slice_from (token_ids (pool ! j)) idx_j;
          new_type_ids = slice_to (type_ids (pool ! i)) idx_i @ slice_from (type_ids (pool ! j)) idx_j;
          new_pos_ids =
            (if position_style rd = ''continuous'' then map int [0..<length new_token_ids]
             else slice_to (pos_ids (pool ! i)) idx_i @ slice_from (pos_ids (pool ! j)) idx_j)
      in if use_role rd then
           (case (role_ids (pool ! i), role_ids (pool ! j)) of
              (Some ri, Some rj) \<Rightarrow>
                Inr (pool @ [\<lparr>token_ids = new_token_ids, type_ids = new_type_ids,
                              pos_ids = new_pos_ids,
                              role_ids = Some (slice_to ri idx_i @ slice_from rj idx_j),
                              tgt_start_idx = idx_i, data_id = Some (- 1), label = Some 0\<rparr>])
            | _ \<Rightarrow> Inl TypeError)
         else
           Inr (pool @ [\<lparr>token_ids = new_token_ids, type_ids = new_type_ids,
                         pos_ids = new_pos_ids, role_ids = None,
                         tgt_start_idx = idx_i, data_id = Some (- 1), label = Some 0\<rparr>]))"

text \<open>\<^verbatim>\<open>for i in range(num_samples)\<close>, stopped by the first error.\<close>

fun neg_sample_loop ::
  "nsp_reader \<Rightarrow> nat \<Rightarrow> nsp_record list \<Rightarrow> nat list \<Rightarrow> error + nsp_record list" where
  "neg_sample_loop rd n_samples pool [] = Inr pool"
| "neg_sample_loop rd n_samples pool (i # is) =
     (case neg_sample_step rd n_samples pool i of
        Inl e \<Rightarrow> Inl e
      | Inr pool' \<Rightarrow> neg_sample_loop rd n_samples pool' is)"

text \<open>
  \<^verbatim>\<open>_gen_from_pool\<close> (lines 55 to 86): the records it yields, in order. The random generator
  \<^verbatim>\<open>self.global_rng\<close> is a parameter: \<open>shuffle rng pool\<close> is the shuffled pool and the
  generator's next state. Every \<^verbatim>\<open>yield\<close> of the general case comes after the loop, so an
  error leaves nothing yielded.
\<close>

definition gen_from_pool ::
  "nsp_reader \<Rightarrow> ('rng \<Rightarrow> nsp_record list \<Rightarrow> nsp_record list \<times> 'rng) \<Rightarrow> 'rng \<Rightarrow>
   nsp_record list \<Rightarrow> error + (nsp_record list \<times> 'rng)" where
  "gen_from_pool rd shuffle rng pool =
     (let n_samples = length pool
      in if n_samples = 1 then Inr ([(pool ! 0)\<lparr>label := Some 1\<rparr>], rng)
         else (case shuffle rng pool of (pool, rng) \<Rightarrow>
                (case neg_sample_loop rd n_samples pool [0..<n_samples] of
                   Inl e \<Rightarrow> Inl e
                 | Inr pool \<Rightarrow> Inr (shuffle rng pool))))"

text \<open>
  \<^verbatim>\<open>__wrapper__\<close> (lines 88 to 98) over the records the wrapped reader yields: the pool is
  handed to \<^verbatim>\<open>_gen_from_pool\<close> when it reaches \<^verbatim>\<open>neg_pool_size\<close> records, and what is left
  at the end is handed over if it is not empty. The result is every record yielded; an error
  is returned in place of them.
\<close>

fun wrapper ::
  "nsp_reader \<Rightarrow> ('rng \<Rightarrow> nsp_record list \<Rightarrow> nsp_record list \<times> 'rng) \<Rightarrow> int \<Rightarrow> 'rng \<Rightarrow>
   nsp_record list \<Rightarrow> nsp_record list \<Rightarrow> error + (nsp_record list \<times> 'rng)" where
  "wrapper rd shuffle pool_size rng pool [] =
     (if length pool > 0 then gen_from_pool rd shuffle rng pool else Inr ([], rng))"
| "wrapper rd shuffle pool_size rng pool (r # rs) =
     (let pool = pool @ [r]
      in if int (length pool) = pool_size then
           (case gen_from_pool rd shuffle rng pool of
              Inl e \<Rightarrow> Inl e
            | Inr (out, rng) \<Rightarrow>
                (case wrapper rd shuffle pool_size rng [] rs of
                   Inl e \<Rightarrow> Inl e
                 | Inr (out', rng) \<Rightarrow> Inr (out @ out', rng)))
         else wrapper rd shuffle pool_size rng pool rs)"

text \<open>
  The records \<^verbatim>\<open>_batch_reader\<close> (lines 101 to 108) batches: those of the wrapped reader,
  mixed with negative samples when \<^verbatim>\<open>mix_negative_sample\<close> is set.
\<close>

definition mixed_records ::
  "nsp_reader \<Rightarrow> ('rng \<Rightarrow> nsp_record list \<Rightarrow> nsp_record list \<times> 'rng) \<Rightarrow> 'rng \<Rightarrow>
   nsp_record list \<Rightarrow> error + (nsp_record list \<times> 'rng)" where
  "mixed_records rd shuffle rng records =
     (if mix_negative_sample rd then wrapper rd shuffle (neg_pool_size rd) rng [] records
      else Inr (records, rng))"

subsection \<open>A configuration and the specification's score policy\<close>

text \<open>
  The defaults of \<^verbatim>\<open>add_cmdline_args\<close>, over a vocabulary of four tokens (unknown, begin,
  end, mask).
\<close>

definition default_generator :: generator where
  "default_generator =
     \<lparr>min_dec_len = 1, max_dec_len = 64, bos_id = 1, eos_id = 2, unk_id = 0,
      mask_id = Some 3, vocab_size = 4, decoding_strategy = ''topk_sampling'',
      ignore_unk = True, temperature = 1, num_samples = None, topk = 10, topp = 9 / 10,
      beam_size = 10, length_penalty = 0, length_average = True, ngram_blocking = 0\<rparr>"

text \<open>
  The score accumulation policy in the words of the specification (section 4.2):
  \<open>lp(L) = ((5 + L) / 6) ^ length_penalty\<close>, and the new score from the previous score
  \<open>S_prev\<close>, the previous length \<open>L_prev\<close> and the new token's log-probability \<open>l\<close>, with
  \<open>L_cur = L_prev + 1\<close>, length averaging before length penalty before no normalisation.
\<close>

definition spec_lp :: "generator \<Rightarrow> real \<Rightarrow> real" where
  "spec_lp g L = ((5 + L) / 6) powr length_penalty g"

definition spec_score_policy :: "generator \<Rightarrow> real \<Rightarrow> real \<Rightarrow> real \<Rightarrow> real" where
  "spec_score_policy g S_prev L_prev l =
     (let L_cur = L_prev + 1
      in if length_average g then (l + S_prev * L_prev) / L_cur
         else if length_penalty g > 0 then (l + S_prev * spec_lp g L_prev) / spec_lp g L_cur
         else l + S_prev)"

text \<open>
  The default configuration with \<^verbatim>\<open>min_dec_len = 3\<close> and no token penalty.
\<close>

definition min3_generator :: generator where
  "min3_generator = default_generator\<lparr>min_dec_len := 3, ignore_unk := False, mask_id := None\<rparr>"




text \<open>A record and a reader with mixing enabled, for the examples of the NSP reader.\<close>

definition example_record :: nsp_record where
  "example_record =
     \<lparr>token_ids = [1, 5, 2, 6, 2], type_ids = [0, 0, 0, 1, 1], pos_ids = [0, 1, 2, 3, 4],
      role_ids = None, tgt_start_idx = 3, data_id = Some 0, label = None\<rparr>"

definition example_reader :: nsp_reader where
  "example_reader =
     \<lparr>mix_negative_sample = True, neg_pool_size = 65536, position_style = ''continuous'',
      use_role = False\<rparr>"

text \<open>The default configuration with \<^verbatim>\<open>max_dec_len = 3\<close>.\<close>

definition short_generator :: generator where
  "short_generator = default_generator\<lparr>max_dec_len := 3\<rparr>"

text \<open>Top-p sampling with \<^verbatim>\<open>min_dec_len = 3\<close> and no token penalty.\<close>

definition topp_generator :: generator where
  "topp_generator = min3_generator\<lparr>decoding_strategy := ''topp_sampling''\<rparr>"

text \<open>Top-k sampling with \<^verbatim>\<open>topk = 2\<close>, \<^verbatim>\<open>min_dec_len = 3\<close> and no token penalty.\<close>

definition topk_generator :: generator where
  "topk_generator = min3_generator\<lparr>topk := 2\<rparr>"

section \<open>Properties\<close>

subsection \<open>Scores\<close>

lemma clamp_score_cases:
  "clamp_score p = (if p < 1 / 1000000000 then 1 / 1000000000 else p)"
  by (simp add: clamp_score_def small_prob_cond_def)

lemma exp_minus_two_ge: "1 / 1000000000 \<le> exp (- 2 :: real)"
proof -
  have "exp (2::real) = exp 1 * exp 1"
    by (simp add: exp_add [symmetric])
  also have "\<dots> \<le> 3 * 3"
    by (intro mult_mono exp_le) simp_all
  finally have "exp (2::real) \<le> 1000000000" by simp
  then have "inverse (1000000000::real) \<le> inverse (exp 2)"
    by (rule le_imp_inverse_le) simp
  then show ?thesis
    by (simp add: exp_minus inverse_eq_divide)
qed

lemma exp_minus_one_ge: "1 / 1000000000 \<le> exp (- 1 :: real)"
proof -
  have "exp (- 2 :: real) \<le> exp (- 1)" by simp
  with exp_minus_two_ge show ?thesis by linarith
qed

lemma score_step_unfinished:
  "1 / 1000000000 \<le> p \<Longrightarrow> score_step g step_idx p pre_score 0 = accu_scores g step_idx p pre_score"
  by (simp add: score_step_def mask_scores_def small_prob_cond_def)

lemma ln_ten_le: "ln (10 :: real) \<le> 9"
  using ln_le_minus_one [of "10 :: real"] by simp

lemma ln_small_probs:
  "- 81 \<le> ln (1 / 1000000000 :: real)" "- 90 \<le> ln (1 / 10000000000 :: real)"
proof -
  have "ln ((10 :: real) ^ 9) = real 9 * ln 10"
    by (rule ln_realpow)
  then have a: "ln (1000000000 :: real) = 9 * ln 10"
    by simp
  have "ln ((10 :: real) ^ 10) = real 10 * ln 10"
    by (rule ln_realpow)
  then have b: "ln (10000000000 :: real) = 10 * ln 10"
    by simp
  have "ln (1 / 1000000000 :: real) = - ln 1000000000"
    by (simp add: ln_div)
  then show "- 81 \<le> ln (1 / 1000000000 :: real)"
    using ln_ten_le a by linarith
  have "ln (1 / 10000000000 :: real) = - ln 10000000000"
    by (simp add: ln_div)
  then show "- 90 \<le> ln (1 / 10000000000 :: real)"
    using ln_ten_le b by linarith
qed

text \<open>
  Claim C1, as the code has it. At every step, for a candidate that is not finished and a
  proposal whose probability \<open>p\<close> is at least \<^verbatim>\<open>1e-9\<close>, the score the step leaves is the
  specification's policy applied to the previous score, the previous length \<open>L_prev\<close> = the
  step index before the step (\<open>L_cur = L_prev + 1\<close>) and the log-probability \<open>ln p\<close>: length
  averaging if \<^verbatim>\<open>length_average\<close>, else the length penalty if \<^verbatim>\<open>length_penalty > 0\<close>, else the
  plain sum. A proposal whose probability is below \<^verbatim>\<open>1e-9\<close> is left with the score \<^verbatim>\<open>-1e9\<close>
  by line 244. The value of lines 220 to 240 is in every case the policy applied to the
  logarithm of the clamped probability. Under length averaging the log-probabilities
  -1, -2, -1 give the score -4/3 after three steps, whatever the initial score.
\<close>

theorem score_update_follows_policy:
  "(1 / 1000000000 \<le> p \<longrightarrow>
      score_step g step_idx p s_prev 0 =
        spec_score_policy g s_prev (real_of_int step_idx) (ln p)) \<and>
   (p < 1 / 1000000000 \<longrightarrow> score_step g step_idx p s_prev 0 = - 1000000000) \<and>
   accu_scores g step_idx p s_prev =
     spec_score_policy g s_prev (real_of_int step_idx) (ln (clamp_score p)) \<and>
   (length_average g \<longrightarrow>
      run_scores g 0 s0 [exp (- 1), exp (- 2), exp (- 1)] = - 4 / 3)"
proof -
  have a: "accu_scores g step_idx p s_prev =
     spec_score_policy g s_prev (real_of_int step_idx) (ln (clamp_score p))"
    by (simp add: accu_scores_def update_scores_def spec_score_policy_def spec_lp_def
        Let_def add.commute)
  have b: "score_step g step_idx p s_prev 0 =
        spec_score_policy g s_prev (real_of_int step_idx) (ln p)" if "1 / 1000000000 \<le> p"
    using that a by (simp add: score_step_unfinished clamp_score_cases)
  have o: "score_step g step_idx p s_prev 0 = - 1000000000" if "p < 1 / 1000000000"
    using that by (simp add: score_step_def mask_scores_def small_prob_cond_def)
  have c: "run_scores g 0 s0 [exp (- 1), exp (- 2), exp (- 1)] = - 4 / 3"
    if la: "length_average g"
  proof -
    have l1: "ln (clamp_score (exp (- 1))) = - 1" and l2: "ln (clamp_score (exp (- 2))) = - 2"
      using exp_minus_one_ge exp_minus_two_ge by (simp_all add: clamp_score_cases)
    have s1: "score_step g 0 (exp (- 1)) s0 0 = - 1"
      unfolding score_step_unfinished [OF exp_minus_one_ge] using la
      by (simp add: accu_scores_def update_scores_def l1)
    have s2: "score_step g 1 (exp (- 2)) (- 1) 0 = - (3 / 2)"
      unfolding score_step_unfinished [OF exp_minus_two_ge] using la
      by (simp add: accu_scores_def update_scores_def l2)
    have s3: "score_step g 2 (exp (- 1)) (- (3 / 2)) 0 = - (4 / 3)"
      unfolding score_step_unfinished [OF exp_minus_one_ge] using la
      by (simp add: accu_scores_def update_scores_def l1)
    show ?thesis by (simp add: s1 s2 s3)
  qed
  from a b o c show ?thesis by blast
qed

theorem score_update_follows_policy_witness:
  "length_average default_generator \<and>
   run_scores default_generator 0 0 [exp (- 1), exp (- 2), exp (- 1)] = - 4 / 3 \<and>
   (1 / 1000000000 :: real) \<le> 1 \<and>
   score_step default_generator 2 1 (- 3) 0 = - 2 \<and>
   (1 / 10000000000 :: real) < 1 / 1000000000 \<and>
   score_step default_generator 2 (1 / 10000000000) (- 3) 0 = - 1000000000"
  using score_update_follows_policy [of 1 default_generator 2 "- 3" 0]
    score_update_follows_policy [of "1 / 10000000000" default_generator 2 "- 3" 0]
  by (simp add: default_generator_def spec_score_policy_def)

text \<open>
  A candidate that is not finished, at step 1 with previous score -1/2, and a proposal of
  probability \<^verbatim>\<open>1e-10\<close>: the step leaves \<^verbatim>\<open>-1e9\<close>, which is not the policy's value, neither on
  the logarithm of the probability nor on the logarithm of the clamped probability.
\<close>

theorem score_update_overridden_counterexample:
  "score_step default_generator 1 (1 / 10000000000) (- 1 / 2) 0 = - 1000000000 \<and>
   spec_score_policy default_generator (- 1 / 2) 1 (ln (1 / 10000000000)) \<noteq> - 1000000000 \<and>
   spec_score_policy default_generator (- 1 / 2) 1 (ln (clamp_score (1 / 10000000000)))
     \<noteq> - 1000000000"
proof (intro conjI)
  show "score_step default_generator 1 (1 / 10000000000) (- 1 / 2) 0 = - 1000000000"
    by (simp add: score_step_def mask_scores_def small_prob_cond_def)
next
  have la: "length_average default_generator"
    by (simp add: default_generator_def)
  have pol: "spec_score_policy default_generator (- 1 / 2) 1 l = (l - 1 / 2) / 2" for l
    using la by (simp add: spec_score_policy_def)
  have c: "clamp_score (1 / 10000000000) = 1 / 1000000000"
    by (simp add: clamp_score_cases)
  have gen: "- 1000000000 < (l - 1 / 2) / 2" if "- 90 \<le> l" for l :: real
    using that by simp
  have "- 1000000000 < (ln (1 / 10000000000 :: real) - 1 / 2) / 2"
    using ln_small_probs(2) by (intro gen)
  then show "spec_score_policy default_generator (- 1 / 2) 1 (ln (1 / 10000000000)) \<noteq> - 1000000000"
    unfolding pol by linarith
  have "- 90 \<le> ln (1 / 1000000000 :: real)"
    using ln_small_probs(1) by simp
  then have "- 1000000000 < (ln (1 / 1000000000 :: real) - 1 / 2) / 2"
    by (intro gen)
  then show "spec_score_policy default_generator (- 1 / 2) 1 (ln (clamp_score (1 / 10000000000)))
     \<noteq> - 1000000000"
    unfolding pol c by linarith
qed

text \<open>
  Claim C4, as the code has it. For a candidate whose \<^verbatim>\<open>is_finished\<close> flag is 1 before a
  step, the score of a proposal after lines 241 to 244 is the candidate's previous score when
  the proposal's probability is at least \<^verbatim>\<open>1e-9\<close>; line 244 gives a proposal whose
  probability is below \<^verbatim>\<open>1e-9\<close> the score \<^verbatim>\<open>-1e9\<close> instead.
\<close>

theorem finished_score_frozen_unless_clamped:
  "(1 / 1000000000 \<le> p \<longrightarrow> score_step g step_idx p pre_score 1 = pre_score) \<and>
   (p < 1 / 1000000000 \<longrightarrow> score_step g step_idx p pre_score 1 = - 1000000000)"
  by (simp add: score_step_def mask_scores_def small_prob_cond_def)

theorem finished_score_frozen_unless_clamped_witness:
  "(1 / 1000000000 :: real) \<le> 1 / 2 \<and>
   score_step default_generator 3 (1 / 2) (- 2) 1 = - 2 \<and>
   (1 / 10000000000 :: real) < 1 / 1000000000 \<and>
   score_step default_generator 3 (1 / 10000000000) (- 2) 1 = - 1000000000"
  using finished_score_frozen_unless_clamped [of "1 / 2" default_generator 3 "- 2"]
    finished_score_frozen_unless_clamped [of "1 / 10000000000" default_generator 3 "- 2"]
  by simp

text \<open>
  A finished candidate with previous score -1/2 and a proposal of probability \<^verbatim>\<open>1e-10\<close>:
  the score after the step is \<^verbatim>\<open>-1e9\<close>, not -1/2.
\<close>

theorem finished_score_overridden_counterexample:
  "score_step default_generator 1 (1 / 10000000000) (- 1 / 2) 1 = - 1000000000 \<and>
   score_step default_generator 1 (1 / 10000000000) (- 1 / 2) 1 \<noteq> - 1 / 2"
  by (simp add: score_step_def mask_scores_def small_prob_cond_def)

text \<open>
  Claim C6. The value handed to the logarithm is \<^verbatim>\<open>1e-9\<close> for a proposal whose probability
  is below \<^verbatim>\<open>1e-9\<close> and the probability itself otherwise; it is at least \<^verbatim>\<open>1e-9\<close>, so its
  logarithm is at least \<open>ln 1e-9\<close>, and this logarithm is the one the score update takes.
\<close>

theorem clamp_before_log:
  "(p < 1 / 1000000000 \<longrightarrow> clamp_score p = 1 / 1000000000) \<and>
   (1 / 1000000000 \<le> p \<longrightarrow> clamp_score p = p) \<and>
   1 / 1000000000 \<le> clamp_score p \<and>
   ln (1 / 1000000000) \<le> ln (clamp_score p) \<and>
   accu_scores g step_idx p pre_score =
     update_scores g (real_of_int step_idx) (real_of_int (step_idx + 1))
       (ln (clamp_score p)) pre_score"
proof -
  have c: "clamp_score p = (if p < 1 / 1000000000 then 1 / 1000000000 else p)"
    by (rule clamp_score_cases)
  have ge: "1 / 1000000000 \<le> clamp_score p"
    by (simp add: c)
  have "ln (1 / 1000000000) \<le> ln (clamp_score p)"
    using ge by (subst ln_le_cancel_iff) simp_all
  then show ?thesis using c ge
    by (simp add: accu_scores_def Let_def)
qed

theorem clamp_before_log_witness:
  "(1 / 10000000000 :: real) < 1 / 1000000000 \<and>
   clamp_score (1 / 10000000000) = 1 / 1000000000 \<and>
   (1 / 1000000000 :: real) \<le> 1 / 2 \<and> clamp_score (1 / 2) = 1 / 2"
  using clamp_before_log [of "1 / 10000000000"] clamp_before_log [of "1 / 2"] by simp

subsection \<open>Penalties on the logits\<close>

lemma eos_penalty_Inr:
  assumes "eos_penalty g = Inr ep" and "eos_index g = Some e"
  shows "e < length ep" and "ep = (replicate (length ep) 0)[e := - 1000000000]"
  using assms
  by (auto simp: eos_penalty_def eos_index_def np_zeros_def np_setitem_def np_index_def
      split: if_splits option.splits)

lemma eos_penalty_nth:
  assumes "eos_penalty g = Inr ep" and "eos_index g = Some e" and "j < length ep"
  shows "ep ! j = (if j = e then - 1000000000 else 0)"
proof -
  have "ep ! j = ((replicate (length ep) 0)[e := - 1000000000]) ! j"
    using eos_penalty_Inr(2) [OF assms(1,2)] by simp
  then show ?thesis using assms(3)
    by (simp add: nth_list_update)
qed



lemma softmax_nth:
  "j < length xs \<Longrightarrow> softmax xs ! j = exp (xs ! j) / sum_list (map exp xs)"
  by (simp add: softmax_def)

lemma sum_exp_nonneg: "0 \<le> sum_list (map exp xs)" for xs :: "real list"
  by (rule sum_list_nonneg) auto

lemma sum_exp_pos: "j < length xs \<Longrightarrow> 0 < sum_list (map exp xs)" for xs :: "real list"
  by (cases xs) (simp_all add: add_pos_nonneg sum_exp_nonneg)

lemma softmax_pos: "j < length xs \<Longrightarrow> 0 < softmax xs ! j"
  using sum_exp_pos [of j xs] by (simp add: softmax_nth)




lemma min3_eos_penalty: "eos_penalty min3_generator = Inr [0, 0, - 1000000000, 0]"
  by (simp add: min3_generator_def default_generator_def eos_penalty_def np_zeros_def
      np_setitem_def np_index_def eval_nat_numeral)


lemma min3_eos_index: "eos_index min3_generator = Some 2"
  by (simp add: min3_generator_def default_generator_def eos_index_def np_index_def)

lemma rne_of_int [simp]: "rne (real_of_int z) = z"
  by (simp add: rne_def)

lemma rne_add_even: "rne (y + real_of_int (2 * c)) = rne y + 2 * c"
proof -
  have "\<lfloor>y + real_of_int (2 * c)\<rfloor> = \<lfloor>y\<rfloor> + 2 * c"
    by linarith
  then show ?thesis
    by (simp add: rne_def Let_def)
qed

lemma rne_error: "\<bar>real_of_int (rne y) - y\<bar> \<le> 1 / 2"
proof -
  have "real_of_int \<lfloor>y\<rfloor> \<le> y" and "y < real_of_int \<lfloor>y\<rfloor> + 1"
    by linarith+
  then show ?thesis
    by (auto simp: rne_def Let_def abs_le_iff)
qed

lemma fl32_zero [simp]: "fl32 0 = 0"
  by (simp add: fl32_def)

lemma fl32_binade:
  assumes "2 powr real_of_int k \<le> \<bar>y\<bar>" and "\<bar>y\<bar> < 2 powr (real_of_int k + 1)" and "- 126 \<le> k"
  shows "fl32 y = 2 powr (real_of_int k - 23) * real_of_int (rne (y / 2 powr (real_of_int k - 23)))"
proof -
  have "0 < 2 powr real_of_int k" by simp
  with assms(1) have pos: "0 < \<bar>y\<bar>" by linarith
  have "\<lfloor>log 2 \<bar>y\<bar>\<rfloor> = k"
    using assms(1,2) pos by (subst floor_log_eq_powr_iff) simp_all
  then show ?thesis
    using pos assms(3) by (simp add: fl32_def Let_def max_def)
qed

lemma fl32_near_1e9:
  assumes "536870912 \<le> \<bar>y\<bar>" and "\<bar>y\<bar> < 1073741824"
  shows "fl32 y = 64 * real_of_int (rne (y / 64))"
proof -
  have "fl32 y = 2 powr (real_of_int 29 - 23) * real_of_int (rne (y / 2 powr (real_of_int 29 - 23)))"
    using assms by (intro fl32_binade) simp_all
  then show ?thesis by simp
qed

lemma fl32_exact_int:
  assumes "\<bar>n\<bar> < 16777216"
  shows "fl32 (real_of_int n) = real_of_int n"
proof (cases "n = 0")
  case True
  then show ?thesis by simp
next
  case False
  define k where "k = \<lfloor>log 2 \<bar>real_of_int n\<bar>\<rfloor>"
  have pos: "0 < \<bar>real_of_int n\<bar>" using False by simp
  have one: "1 \<le> \<bar>real_of_int n\<bar>" using False by (simp flip: of_int_abs)
  have lt: "\<bar>real_of_int n\<bar> < 16777216" using assms by (simp flip: of_int_abs)
  have b: "2 powr real_of_int k \<le> \<bar>real_of_int n\<bar>"
      "\<bar>real_of_int n\<bar> < 2 powr (real_of_int k + 1)"
    using floor_log_eq_powr_iff [of "\<bar>real_of_int n\<bar>" 2 k] pos by (simp_all add: k_def)
  have k0: "0 \<le> k"
  proof (rule ccontr)
    assume "\<not> 0 \<le> k"
    then have "real_of_int k + 1 \<le> 0" by simp
    then have "2 powr (real_of_int k + 1) \<le> 2 powr 0"
      by (intro powr_mono) simp_all
    with b(2) one show False by simp
  qed
  have k23: "k \<le> 23"
  proof (rule ccontr)
    assume "\<not> k \<le> 23"
    then have "24 \<le> real_of_int k" by simp
    then have "2 powr 24 \<le> 2 powr real_of_int k"
      by (intro powr_mono) simp_all
    with b(1) lt show False by simp
  qed
  define d where "d = nat (23 - k)"
  have e: "real_of_int k - 23 = - real d"
    using k23 by (simp add: d_def)
  have ulp: "2 powr (real_of_int k - 23) = 1 / 2 ^ d"
    unfolding e by (simp add: powr_minus_divide powr_realpow)
  have q: "real_of_int n / (1 / 2 ^ d) = real_of_int (n * 2 ^ d)"
    by simp
  have "fl32 (real_of_int n) =
      2 powr (real_of_int k - 23) * real_of_int (rne (real_of_int n / 2 powr (real_of_int k - 23)))"
    using b k0 by (intro fl32_binade) simp_all
  also have "\<dots> = 1 / 2 ^ d * real_of_int (n * 2 ^ d)"
    unfolding ulp q rne_of_int ..
  also have "\<dots> = real_of_int n"
    by simp
  finally show ?thesis .
qed

lemma fl32_minus_1e9: "fl32 (- 1000000000) = - 1000000000"
proof -
  have "fl32 (- 1000000000) = 64 * real_of_int (rne (- 1000000000 / 64))"
    by (intro fl32_near_1e9) simp_all
  also have "- 1000000000 / 64 = real_of_int (- 15625000)" by simp
  finally show ?thesis by (simp only: rne_of_int)
qed

lemma fl32_cancel_residue:
  assumes "\<bar>x\<bar> \<le> 1048576"
  shows "fl32 (fl32 (x + - 1000000000) - fl32 (1 * - 1000000000))
           = 64 * real_of_int (rne (x / 64))"
proof -
  have "fl32 (x + - 1000000000) = 64 * real_of_int (rne ((x + - 1000000000) / 64))"
    using assms by (intro fl32_near_1e9) (simp_all add: abs_if split: if_splits)
  also have "(x + - 1000000000) / 64 = x / 64 + real_of_int (2 * (- 7812500))"
    by simp
  finally have 1: "fl32 (x + - 1000000000) = 64 * real_of_int (rne (x / 64)) - 1000000000"
    by (simp only: rne_add_even) simp
  have "\<bar>real_of_int (rne (x / 64)) - x / 64\<bar> \<le> 1 / 2"
    by (rule rne_error)
  then have "\<bar>real_of_int (rne (x / 64))\<bar> \<le> 16385"
    using assms unfolding abs_le_iff by linarith
  then have "\<bar>rne (x / 64)\<bar> \<le> 16385"
    by (simp flip: of_int_abs)
  then have "\<bar>64 * rne (x / 64)\<bar> < 16777216"
    by (simp add: abs_mult)
  then have 3: "fl32 (real_of_int (64 * rne (x / 64))) = real_of_int (64 * rne (x / 64))"
    by (rule fl32_exact_int)
  have 2: "fl32 (x + - 1000000000) - fl32 (1 * - 1000000000) = real_of_int (64 * rne (x / 64))"
    using 1 fl32_minus_1e9 by simp
  show ?thesis
    unfolding 2 3 by simp
qed

lemma fl32_boost:
  assumes "\<bar>x\<bar> \<le> 1048576"
  shows "fl32 (x - fl32 (1 * - 1000000000)) = 64 * real_of_int (rne (x / 64)) + 1000000000"
proof -
  have "fl32 (x + 1000000000) = 64 * real_of_int (rne ((x + 1000000000) / 64))"
    using assms by (intro fl32_near_1e9) (simp_all add: abs_if split: if_splits)
  also have "(x + 1000000000) / 64 = x / 64 + real_of_int (2 * 7812500)"
    by simp
  finally have 1: "fl32 (x + 1000000000) = 64 * real_of_int (rne (x / 64)) + 1000000000"
    by (simp only: rne_add_even) simp
  have 2: "x - fl32 (1 * - 1000000000) = x + 1000000000"
    by (simp add: fl32_minus_1e9)
  show ?thesis
    unfolding 2 by (rule 1)
qed

lemma length_stage_f32_length:
  "length logits = length ep \<Longrightarrow> length (length_stage_f32 g ep step_idx f logits) = length logits"
  by (simp add: length_stage_f32_def finished_stage_f32_def min_len_stage_f32_def
      elementwise_add_f32_def elementwise_sub_f32_def)

lemma length_stage_f32_nth:
  assumes "length logits = length ep" and "j < length logits"
  shows "length_stage_f32 g ep step_idx f logits ! j =
           fl32 ((if step_idx < min_dec_len g then fl32 (logits ! j + ep ! j) else logits ! j)
                 - fl32 (f * ep ! j))"
  using assms
  by (simp add: length_stage_f32_def finished_stage_f32_def min_len_stage_f32_def
      elementwise_add_f32_def elementwise_sub_f32_def)

lemma rne_residue_bound: "\<bar>64 * real_of_int (rne (x / 64)) - x\<bar> \<le> 32"
  using rne_error [of "x / 64"] unfolding abs_le_iff by linarith

lemma rne_small: "\<bar>x\<bar> < 32 \<Longrightarrow> rne (x / 64) = 0"
proof -
  assume a: "\<bar>x\<bar> < 32"
  show ?thesis
  proof (cases "0 \<le> x")
    case True
    then have "\<lfloor>x / 64\<rfloor> = 0" using a by (simp add: floor_eq_iff)
    then show ?thesis using a True by (simp add: rne_def)
  next
    case False
    then have "\<lfloor>x / 64\<rfloor> = - 1" using a by (simp add: floor_eq_iff)
    then show ?thesis using a False by (simp add: rne_def)
  qed
qed

lemma length_stage_f32_finished:
  assumes ep: "eos_penalty g = Inr ep" and e: "eos_index g = Some e"
    and len: "length logits = length ep"
    and flt: "\<forall>x \<in> set logits. fl32 x = x"
    and bnd: "\<bar>logits ! e\<bar> \<le> 1048576"
  shows "length_stage_f32 g ep step_idx 1 logits =
           logits[e := 64 * real_of_int (rne (logits ! e / 64))
                       + (if step_idx < min_dec_len g then 0 else 1000000000)]"
proof (rule nth_equalityI)
  show "length (length_stage_f32 g ep step_idx 1 logits) =
      length (logits[e := 64 * real_of_int (rne (logits ! e / 64))
                       + (if step_idx < min_dec_len g then 0 else 1000000000)])"
    using len by (simp add: length_stage_f32_length)
next
  fix j assume "j < length (length_stage_f32 g ep step_idx 1 logits)"
  then have j: "j < length logits"
    using len by (simp add: length_stage_f32_length)
  have elt: "e < length logits"
    using eos_penalty_Inr(1) [OF ep e] len by simp
  have fj: "fl32 (logits ! j) = logits ! j"
    using flt j by simp
  show "length_stage_f32 g ep step_idx 1 logits ! j =
      logits[e := 64 * real_of_int (rne (logits ! e / 64))
                       + (if step_idx < min_dec_len g then 0 else 1000000000)] ! j"
  proof (cases "j = e")
    case True
    have epe: "ep ! e = - 1000000000"
      using eos_penalty_nth [OF ep e, of e] elt len by simp
    show ?thesis
      using True elt len fl32_cancel_residue [OF bnd] fl32_boost [OF bnd]
      by (simp add: length_stage_f32_nth epe)
  next
    case False
    have epj: "ep ! j = 0"
      using eos_penalty_nth [OF ep e, of j] j len False by simp
    show ?thesis
      using False j len by (simp add: length_stage_f32_nth epj fj)
  qed
qed

lemma fl32_small_ints: "fl32 1 = 1" "fl32 2 = 2" "fl32 3 = 3" "fl32 4 = 4" "fl32 40 = 40"
  using fl32_exact_int [of 1] fl32_exact_int [of 2] fl32_exact_int [of 3] fl32_exact_int [of 4]
    fl32_exact_int [of 40]
  by simp_all

lemma rne_examples: "rne (3 / 64) = 0" "rne (5 / 8) = 1"
  by (simp_all add: rne_def)

text \<open>
  Claim C10, as the code has it. For a candidate that is already finished (\<^verbatim>\<open>is_finished\<close>
  = 1), with \<^verbatim>\<open>float32\<close> logits and an end-of-sequence logit \<open>x\<close> of magnitude at most \<open>2 ^ 20\<close>:
  at a step below \<^verbatim>\<open>min_dec_len\<close>, adding \<^verbatim>\<open>eos_penalty\<close> (lines 163 to 171) and subtracting
  \<^verbatim>\<open>is_finished * eos_penalty\<close> (lines 173 and 174) cancel up to the rounding of \<^verbatim>\<open>float32\<close>:
  the end-of-sequence logit is left at \<open>x\<close> rounded to the nearest multiple of 64 (within 32
  of \<open>x\<close>), and every other logit is unchanged, so the end-of-sequence token is not forced. At
  a step at or after \<^verbatim>\<open>min_dec_len\<close> the end-of-sequence logit of a finished candidate is that
  value raised by \<^verbatim>\<open>1e9\<close>.
\<close>

theorem finished_eos_penalties_cancel_up_to_rounding:
  assumes "eos_penalty g = Inr ep" and "eos_index g = Some e"
    and "length logits = length ep"
    and "\<forall>x \<in> set logits. fl32 x = x"
    and "\<bar>logits ! e\<bar> \<le> 1048576"
  shows
    "(step_idx < min_dec_len g \<longrightarrow>
        length_stage_f32 g ep step_idx 1 logits =
          logits[e := 64 * real_of_int (rne (logits ! e / 64))]) \<and>
     (min_dec_len g \<le> step_idx \<longrightarrow>
        length_stage_f32 g ep step_idx 1 logits =
          logits[e := 64 * real_of_int (rne (logits ! e / 64)) + 1000000000]) \<and>
     \<bar>64 * real_of_int (rne (logits ! e / 64)) - logits ! e\<bar> \<le> 32 \<and>
     (\<bar>logits ! e\<bar> < 32 \<longrightarrow> rne (logits ! e / 64) = 0)"
  using length_stage_f32_finished [OF assms, of step_idx] rne_residue_bound [of "logits ! e"]
    rne_small [of "logits ! e"]
  by simp

theorem finished_eos_penalties_cancel_up_to_rounding_witness:
  "eos_penalty min3_generator = Inr [0, 0, - 1000000000, 0] \<and>
   eos_index min3_generator = Some 2 \<and>
   (0 :: int) < min_dec_len min3_generator \<and>
   length_stage_f32 min3_generator [0, 0, - 1000000000, 0] 0 1 [1, 2, 40, 4] = [1, 2, 64, 4] \<and>
   min_dec_len min3_generator \<le> 3 \<and>
   length_stage_f32 min3_generator [0, 0, - 1000000000, 0] 3 1 [1, 2, 40, 4]
     = [1, 2, 1000000064, 4]"
proof -
  let ?ep = "[0, 0, - 1000000000, 0 :: real]" and ?l = "[1, 2, 40, 4 :: real]"
  have a: "(0 :: int) < min_dec_len min3_generator" and b: "min_dec_len min3_generator \<le> 3"
    by (simp_all add: min3_generator_def default_generator_def)
  have len: "length ?l = length ?ep" by simp
  have flt: "\<forall>x \<in> set ?l. fl32 x = x"
    by (simp add: fl32_small_ints)
  have bnd: "\<bar>?l ! 2\<bar> \<le> 1048576" by simp
  note t = finished_eos_penalties_cancel_up_to_rounding [OF min3_eos_penalty min3_eos_index len flt bnd]
  have "length_stage_f32 min3_generator ?ep 0 1 ?l = ?l[2 := 64 * real_of_int (rne (?l ! 2 / 64))]"
    using t [of 0] a by blast
  then have s: "length_stage_f32 min3_generator ?ep 0 1 ?l = [1, 2, 64, 4]"
    by (simp add: rne_examples)
  have "length_stage_f32 min3_generator ?ep 3 1 ?l
      = ?l[2 := 64 * real_of_int (rne (?l ! 2 / 64)) + 1000000000]"
    using t [of 3] b by blast
  then have u: "length_stage_f32 min3_generator ?ep 3 1 ?l = [1, 2, 1000000064, 4]"
    by (simp add: rne_examples)
  show ?thesis
    using min3_eos_penalty min3_eos_index a b s u by blast
qed

text \<open>
  A finished candidate at step 0 with \<^verbatim>\<open>min_dec_len = 3\<close> and the end-of-sequence logit 3:
  the logit is left at 0, not at 3.
\<close>

theorem finished_eos_logit_rounded_counterexample:
  "eos_penalty min3_generator = Inr [0, 0, - 1000000000, 0] \<and>
   (0 :: int) < min_dec_len min3_generator \<and>
   length_stage_f32 min3_generator [0, 0, - 1000000000, 0] 0 1 [0, 0, 3, 0] ! 2 = 0 \<and>
   length_stage_f32 min3_generator [0, 0, - 1000000000, 0] 0 1 [0, 0, 3, 0] ! 2 \<noteq> [0, 0, 3, 0] ! 2"
proof -
  let ?ep = "[0, 0, - 1000000000, 0 :: real]" and ?l = "[0, 0, 3, 0 :: real]"
  have a: "(0 :: int) < min_dec_len min3_generator"
    by (simp add: min3_generator_def default_generator_def)
  have len: "length ?l = length ?ep" by simp
  have flt: "\<forall>x \<in> set ?l. fl32 x = x"
    by (simp add: fl32_small_ints)
  have bnd: "\<bar>?l ! 2\<bar> \<le> 1048576" by simp
  have "length_stage_f32 min3_generator ?ep 0 1 ?l
      = ?l[2 := 64 * real_of_int (rne (?l ! 2 / 64)) + (if (0::int) < min_dec_len min3_generator then 0 else 1000000000)]"
    by (rule length_stage_f32_finished [OF min3_eos_penalty min3_eos_index len flt bnd])
  then have "length_stage_f32 min3_generator ?ep 0 1 ?l = [0, 0, 0, 0]"
    using a by (simp add: rne_examples)
  then show ?thesis
    using min3_eos_penalty a by simp
qed




subsection \<open>Configuration errors\<close>



lemma eos_penalty_frame [simp]: "eos_penalty (g\<lparr>topp := t, beam_size := n\<rparr>) = eos_penalty g"
  by (simp add: eos_penalty_def split: sum.splits)

lemma token_penalty_frame [simp]: "token_penalty (g\<lparr>topp := t, beam_size := n\<rparr>) = token_penalty g"
  by (simp add: token_penalty_def split: sum.splits option.splits)

lemma select_branch_topp: "select_branch ''topp_sampling'' = Inr ToppSampling"
  by (simp add: select_branch_def startswith_def)






subsection \<open>The NSP reader\<close>

lemma gen_from_pool_single:
  "length pool = 1 \<Longrightarrow>
   gen_from_pool rd shuffle rng pool = Inr ([(pool ! 0)\<lparr>label := Some 1\<rparr>], rng)"
  by (simp add: gen_from_pool_def)

text \<open>
  Claim C9. A pool of exactly one record makes \<^verbatim>\<open>_gen_from_pool\<close> yield that record with
  the label 1 and return, with no error and without touching the random generator; with
  mixing enabled, a reader that yields a single record gives that record with the label 1,
  whatever \<^verbatim>\<open>neg_pool_size\<close> is.
\<close>

theorem single_record_pool_labelled:
  "(length pool = 1 \<longrightarrow>
      gen_from_pool rd shuffle rng pool = Inr ([(pool ! 0)\<lparr>label := Some 1\<rparr>], rng)) \<and>
   (mix_negative_sample rd \<longrightarrow>
      mixed_records rd shuffle rng [r] = Inr ([r\<lparr>label := Some 1\<rparr>], rng))"
proof -
  have "wrapper rd shuffle n rng [] [r] = Inr ([r\<lparr>label := Some 1\<rparr>], rng)" for n
    by (simp add: gen_from_pool_def Let_def)
  then show ?thesis
    by (simp add: mixed_records_def gen_from_pool_single)
qed

theorem single_record_pool_labelled_witness:
  "length [example_record] = 1 \<and>
   gen_from_pool example_reader (\<lambda>rng pool. (rev pool, Suc rng)) (0 :: nat) [example_record]
     = Inr ([example_record\<lparr>label := Some 1\<rparr>], 0) \<and>
   mix_negative_sample example_reader \<and>
   mixed_records example_reader (\<lambda>rng pool. (rev pool, Suc rng)) (0 :: nat) [example_record]
     = Inr ([example_record\<lparr>label := Some 1\<rparr>], 0)"
  using single_record_pool_labelled [of "[example_record]" example_reader "\<lambda>rng pool. (rev pool, Suc rng)" 0 example_record]
  by (simp add: example_reader_def)

subsection \<open>The decoding loop\<close>

lemma while_block_unfold:
  "while_block m b f i s =
     (i + 1, b s i) #
     (if i + 1 < m \<and> \<not> reduce_all_finished (f (b s i)) then while_block m b f (i + 1) (b s i)
      else [])"
  by (subst while_block.simps) (simp add: Let_def)

lemma while_block_not_Nil: "while_block m b f i s \<noteq> []"
  by (subst while_block_unfold) simp

lemma while_block_indices:
  "map fst (while_block m b f i s) =
     map (\<lambda>k. i + 1 + int k) [0..<length (while_block m b f i s)]"
proof (induction m b f i s rule: while_block.induct)
  case (1 m b f i s)
  show ?case
  proof (cases "i + 1 < m \<and> \<not> reduce_all_finished (f (b s i))")
    case True
    let ?t = "while_block m b f (i + 1) (b s i)"
    have ih: "map fst ?t = map (\<lambda>k. i + 1 + 1 + int k) [0..<length ?t]"
      using True by (intro "1.IH") (simp_all add: Let_def)
    have u: "while_block m b f i s = (i + 1, b s i) # ?t"
      using True by (subst while_block_unfold) simp
    have "map (\<lambda>k. i + 1 + int k) [0..<Suc (length ?t)] =
        (i + 1) # map (\<lambda>k. i + 1 + int (Suc k)) [0..<length ?t]"
      by (simp only: upt_conv_Cons zero_less_Suc map_Suc_upt [symmetric] list.map map_map o_def)
         simp
    then show ?thesis
      by (simp add: u ih add.assoc del: upt_Suc)
  next
    case False
    then have "while_block m b f i s = [(i + 1, b s i)]"
      by (subst while_block_unfold) auto
    then show ?thesis by simp
  qed
qed

lemma while_block_length:
  "i < m \<Longrightarrow> int (length (while_block m b f i s)) \<le> m - i"
proof (induction m b f i s rule: while_block.induct)
  case (1 m b f i s)
  show ?case
  proof (cases "i + 1 < m \<and> \<not> reduce_all_finished (f (b s i))")
    case True
    let ?t = "while_block m b f (i + 1) (b s i)"
    have "int (length ?t) \<le> m - (i + 1)"
      using True by (intro "1.IH") (simp_all add: Let_def)
    moreover have "while_block m b f i s = (i + 1, b s i) # ?t"
      using True by (subst while_block_unfold) simp
    ultimately show ?thesis by simp
  next
    case False
    then have "while_block m b f i s = [(i + 1, b s i)]"
      by (subst while_block_unfold) auto
    then show ?thesis using "1.prems" by simp
  qed
qed

lemma while_block_continues:
  "k < length (while_block m b f i s) \<Longrightarrow>
   (Suc k < length (while_block m b f i s)) =
     (fst (while_block m b f i s ! k) < m \<and>
      \<not> reduce_all_finished (f (snd (while_block m b f i s ! k))))"
proof (induction m b f i s arbitrary: k rule: while_block.induct)
  case (1 m b f i s)
  show ?case
  proof (cases "i + 1 < m \<and> \<not> reduce_all_finished (f (b s i))")
    case True
    let ?t = "while_block m b f (i + 1) (b s i)"
    have u: "while_block m b f i s = (i + 1, b s i) # ?t"
      using True by (subst while_block_unfold) simp
    show ?thesis
    proof (cases k)
      case 0
      then show ?thesis using True while_block_not_Nil [of m b f "i + 1" "b s i"]
        by (simp add: u)
    next
      case (Suc k')
      then have "k' < length ?t" using "1.prems" by (simp add: u)
      then have "(Suc k' < length ?t) =
          (fst (?t ! k') < m \<and> \<not> reduce_all_finished (f (snd (?t ! k'))))"
        using True by (intro "1.IH") (simp_all add: Let_def)
      then show ?thesis using Suc by (simp add: u)
    qed
  next
    case False
    then have u: "while_block m b f i s = [(i + 1, b s i)]"
      by (subst while_block_unfold) auto
    then show ?thesis using False "1.prems" by auto
  qed
qed

lemma while_block_steps:
  "Suc k < length (while_block m b f i s) \<Longrightarrow>
   while_block m b f i s ! Suc k =
     (fst (while_block m b f i s ! k) + 1,
      b (snd (while_block m b f i s ! k)) (fst (while_block m b f i s ! k)))"
proof (induction m b f i s arbitrary: k rule: while_block.induct)
  case (1 m b f i s)
  show ?case
  proof (cases "i + 1 < m \<and> \<not> reduce_all_finished (f (b s i))")
    case True
    let ?t = "while_block m b f (i + 1) (b s i)"
    have u: "while_block m b f i s = (i + 1, b s i) # ?t"
      using True by (subst while_block_unfold) simp
    show ?thesis
    proof (cases k)
      case 0
      have "?t ! 0 = (i + 1 + 1, b (b s i) (i + 1))"
        by (subst while_block_unfold) simp
      then show ?thesis using 0 by (simp add: u)
    next
      case (Suc k')
      then have "Suc k' < length ?t" using "1.prems" by (simp add: u)
      then have "?t ! Suc k' = (fst (?t ! k') + 1, b (snd (?t ! k')) (fst (?t ! k')))"
        using True by (intro "1.IH") (simp_all add: Let_def)
      then show ?thesis using Suc by (simp add: u)
    qed
  next
    case False
    then have u: "while_block m b f i s = [(i + 1, b s i)]"
      by (subst while_block_unfold) auto
    then show ?thesis using "1.prems" by simp
  qed
qed

text \<open>
  The whole run, for any configuration and any initial state: when the block is entered, how
  the step index and the state move on, when the loop goes on after an iteration, and how
  many iterations there are at most.
\<close>

lemma decoding_loop_trace:
  assumes "tr = decoding_loop g body is_finished st"
  shows
    "(tr = [] \<longleftrightarrow> max_dec_len g \<le> 0) \<and>
     step_indices g body is_finished st = map int [0..<Suc (length tr)] \<and>
     (tr \<noteq> [] \<longrightarrow> tr ! 0 = (1, body st 0)) \<and>
     (\<forall>k. Suc k < length tr \<longrightarrow>
        tr ! Suc k = (fst (tr ! k) + 1, body (snd (tr ! k)) (fst (tr ! k)))) \<and>
     (\<forall>k < length tr.
        (Suc k < length tr) =
          (fst (tr ! k) < max_dec_len g \<and> \<not> reduce_all_finished (is_finished (snd (tr ! k))))) \<and>
     int (length tr) \<le> max 0 (max_dec_len g) \<and>
     (0 \<le> max_dec_len g \<longrightarrow>
        (\<forall>i \<in> set (step_indices g body is_finished st). 0 \<le> i \<and> i \<le> max_dec_len g))"
proof (cases "0 < max_dec_len g")
  case False
  then have "tr = []"
    using assms by (simp add: decoding_loop_def)
  then show ?thesis
    using False assms by (simp add: step_indices_def)
next
  case True
  let ?m = "max_dec_len g"
  have tr: "tr = while_block ?m body is_finished 0 st"
    using True assms by (simp add: decoding_loop_def)
  have ne: "tr \<noteq> []"
    unfolding tr by (rule while_block_not_Nil)
  have idx: "map fst tr = map (\<lambda>k. 1 + int k) [0..<length tr]"
    unfolding tr using while_block_indices [of ?m body is_finished 0 st] by simp
  have "map int [0..<Suc (length tr)] = 0 # map (\<lambda>k. int (Suc k)) [0..<length tr]"
    by (simp only: upt_conv_Cons zero_less_Suc map_Suc_upt [symmetric] list.map map_map o_def)
       simp
  then have si: "step_indices g body is_finished st = map int [0..<Suc (length tr)]"
    using idx assms by (simp add: step_indices_def add.commute del: upt_Suc)
  have first: "tr ! 0 = (1, body st 0)"
    unfolding tr by (subst while_block_unfold) simp
  have steps: "tr ! Suc k = (fst (tr ! k) + 1, body (snd (tr ! k)) (fst (tr ! k)))"
    if "Suc k < length tr" for k
    using that unfolding tr by (rule while_block_steps)
  have cont: "(Suc k < length tr) =
      (fst (tr ! k) < ?m \<and> \<not> reduce_all_finished (is_finished (snd (tr ! k))))"
    if "k < length tr" for k
    using that unfolding tr by (rule while_block_continues)
  have len: "int (length tr) \<le> ?m"
    unfolding tr using while_block_length [OF True, of body is_finished st] by simp
  have rng: "0 \<le> i \<and> i \<le> ?m" if "i \<in> set (step_indices g body is_finished st)" for i
  proof -
    from that obtain n where "n < Suc (length tr)" and "i = int n"
      unfolding si by auto
    then show ?thesis using len by simp
  qed
  show ?thesis
    using True ne si first steps cont len rng by (simp add: max_def)
qed

text \<open>
  Claim C2. For \<^verbatim>\<open>max_dec_len\<close> \<open>\<ge>\<close> 1 and an initial state in which not every candidate is
  finished, with \<open>run\<close> the step index and the state at the start and after each iteration:
  \<^verbatim>\<open>step_idx\<close> starts at 0 and increases by exactly 1 per iteration, each iteration applying
  the body to the state and the step index before it; every step index lies between 0 and
  \<^verbatim>\<open>max_dec_len\<close>; a point of the run is the last one exactly when \<^verbatim>\<open>step_idx\<close> has reached
  \<^verbatim>\<open>max_dec_len\<close> or every candidate is finished there; and the loop ends after at most
  \<^verbatim>\<open>max_dec_len\<close> iterations. (\<open>decoding_loop\<close> is a total function: its recursion is proved
  to terminate.)
\<close>

theorem decoding_loop_stops_exactly:
  assumes m: "1 \<le> max_dec_len g"
    and nf: "\<not> reduce_all_finished (is_finished st)"
    and run: "run = (0, st) # decoding_loop g body is_finished st"
  shows
    "map fst run = map int [0..<length run] \<and>
     (\<forall>k. Suc k < length run \<longrightarrow>
        run ! Suc k = (fst (run ! k) + 1, body (snd (run ! k)) (fst (run ! k)))) \<and>
     (\<forall>k < length run. 0 \<le> fst (run ! k) \<and> fst (run ! k) \<le> max_dec_len g) \<and>
     (\<forall>k < length run.
        (Suc k = length run) =
          (fst (run ! k) = max_dec_len g \<or> reduce_all_finished (is_finished (snd (run ! k))))) \<and>
     int (length run) \<le> max_dec_len g + 1"
proof -
  define tr where "tr = decoding_loop g body is_finished st"
  note t = decoding_loop_trace [OF tr_def, of ]
  have ne: "tr \<noteq> []" using t m by auto
  have si: "map fst run = map int [0..<length run]"
    using t unfolding run tr_def [symmetric] step_indices_def by simp
  have first: "tr ! 0 = (1, body st 0)" using t ne by blast
  have steps: "tr ! Suc k = (fst (tr ! k) + 1, body (snd (tr ! k)) (fst (tr ! k)))"
    if "Suc k < length tr" for k
    using t that by blast
  have cont: "(Suc k < length tr) =
      (fst (tr ! k) < max_dec_len g \<and> \<not> reduce_all_finished (is_finished (snd (tr ! k))))"
    if "k < length tr" for k
    using t that by blast
  have len: "int (length tr) \<le> max_dec_len g"
    using t m by (simp add: max_def)
  have rng: "0 \<le> fst (run ! k) \<and> fst (run ! k) \<le> max_dec_len g" if "k < length run" for k
  proof -
    have "fst (run ! k) = map fst run ! k" using that by simp
    also have "\<dots> = int k" unfolding si using that by simp
    finally show ?thesis using that len unfolding run tr_def [symmetric] by simp
  qed
  have st1: "run ! Suc k = (fst (run ! k) + 1, body (snd (run ! k)) (fst (run ! k)))"
    if "Suc k < length run" for k
  proof (cases k)
    case 0
    then show ?thesis using first unfolding run tr_def [symmetric] by simp
  next
    case (Suc k')
    then have "Suc k' < length tr" using that unfolding run tr_def [symmetric] by simp
    from steps [OF this] show ?thesis
      using Suc unfolding run tr_def [symmetric] by simp
  qed
  have stop: "(Suc k = length run) =
      (fst (run ! k) = max_dec_len g \<or> reduce_all_finished (is_finished (snd (run ! k))))"
    if "k < length run" for k
  proof (cases k)
    case 0
    then show ?thesis using ne m nf unfolding run tr_def [symmetric] by simp
  next
    case (Suc k')
    then have k': "k' < length tr" using that unfolding run tr_def [symmetric] by simp
    have le: "fst (tr ! k') \<le> max_dec_len g"
      using rng [OF that] Suc unfolding run tr_def [symmetric] by simp
    have "(Suc k = length run) = (\<not> Suc k' < length tr)"
      using Suc k' unfolding run tr_def [symmetric] by auto
    also have "\<dots> = (fst (tr ! k') = max_dec_len g \<or>
        reduce_all_finished (is_finished (snd (tr ! k'))))"
      unfolding cont [OF k'] using le by auto
    finally show ?thesis
      using Suc unfolding run tr_def [symmetric] by simp
  qed
  have "int (length run) \<le> max_dec_len g + 1"
    using len unfolding run tr_def [symmetric] by simp
  with si st1 rng stop show ?thesis by blast
qed

theorem decoding_loop_stops_exactly_witness:
  "1 \<le> max_dec_len short_generator \<and>
   \<not> reduce_all_finished [0] \<and>
   decoding_loop short_generator (\<lambda>st step_idx. [real_of_int step_idx]) (\<lambda>st. st) [0]
     = [(1, [0]), (2, [1])] \<and>
   map fst ((0, [0]) #
       decoding_loop short_generator (\<lambda>st step_idx. [real_of_int step_idx]) (\<lambda>st. st) [0])
     = [0, 1, 2] \<and>
   int (length ((0, [0]) #
       decoding_loop short_generator (\<lambda>st step_idx. [real_of_int step_idx]) (\<lambda>st. st) [0]))
     \<le> max_dec_len short_generator + 1"
proof -
  have m: "max_dec_len short_generator = 3"
    by (simp add: short_generator_def default_generator_def)
  have m1: "1 \<le> max_dec_len short_generator" by (simp add: m)
  have nf: "\<not> reduce_all_finished ((\<lambda>st. st) [0 :: real])"
    by (simp add: reduce_all_finished_def)
  have l: "decoding_loop short_generator (\<lambda>st step_idx. [real_of_int step_idx]) (\<lambda>st. st) [0]
     = [(1, [0]), (2, [1])]"
    by (simp add: decoding_loop_def m reduce_all_finished_def while_block.simps)
  have nf0: "\<not> reduce_all_finished [0 :: real]"
    by (simp add: reduce_all_finished_def)
  have b: "int (length ((0, [0]) #
       decoding_loop short_generator (\<lambda>st step_idx. [real_of_int step_idx]) (\<lambda>st. st) [0]))
     \<le> max_dec_len short_generator + 1"
    using m1 nf0
      decoding_loop_stops_exactly [where g = short_generator and is_finished = "\<lambda>st. st" and st = "[0 :: real]"
        and body = "\<lambda>st step_idx. [real_of_int step_idx]"
        and run = "(0, [0]) #
          decoding_loop short_generator (\<lambda>st step_idx. [real_of_int step_idx]) (\<lambda>st. st) [0]"]
    by simp
  show ?thesis
    using m1 nf0 l b by simp
qed

subsection \<open>Top-p sampling\<close>

lemma argsort_desc_idx:
  assumes "argsort_desc x = (sx, si)"
  shows "length si = length x" and "distinct si" and "set si = {0..<length x}"
    and "sx = map (\<lambda>i. x ! i) si" and "sorted (map (\<lambda>i. - (x ! i)) si)"
  using assms by (auto simp: argsort_desc_def Let_def)

lemma argsort_desc_descending:
  assumes "argsort_desc x = (sx, si)" and "r \<le> s" and "s < length x"
  shows "sx ! s \<le> sx ! r"
proof -
  have len: "length si = length x" and sx: "sx = map (\<lambda>i. x ! i) si"
    and srt: "sorted (map (\<lambda>i. - (x ! i)) si)"
    using argsort_desc_idx [OF assms(1)] by simp_all
  have "map (\<lambda>i. - (x ! i)) si ! r \<le> map (\<lambda>i. - (x ! i)) si ! s"
    using srt assms(2,3) len by (intro sorted_nth_mono) simp_all
  then show ?thesis using assms(2,3) len by (simp add: sx)
qed

lemma length_cumsum_from [simp]: "length (cumsum_from a xs) = length xs"
  by (induction xs arbitrary: a) simp_all

lemma cumsum_from_nth:
  "r < length xs \<Longrightarrow> cumsum_from a xs ! r = a + sum_list (take r xs)"
proof (induction xs arbitrary: a r)
  case Nil
  then show ?case by simp
next
  case (Cons x xs)
  then show ?case by (cases r) (simp_all add: add.assoc)
qed

lemma topp_candidates_eq:
  assumes "argsort_desc probs = (sx, si)"
  shows "topp_candidates g probs =
    (map (\<lambda>r. if sum_list (take r sx) < topp g then sx ! r else 0) [0..<length probs], si)"
proof -
  have len: "length sx = length probs"
    using argsort_desc_idx [OF assms] by simp
  have "map2 (*) sx (map (\<lambda>c. cast_bool (c < topp g)) (cumsum_exclusive sx)) =
      map (\<lambda>r. if sum_list (take r sx) < topp g then sx ! r else 0) [0..<length probs]"
    using len
    by (intro nth_equalityI)
       (simp_all add: cumsum_exclusive_def cumsum_from_nth cast_bool_def)
  then show ?thesis
    by (simp add: topp_candidates_def assms)
qed

lemma sum_list_divide:
  "sum_list (map (\<lambda>c. c / s) xs) = sum_list xs / s" for s :: real
  by (induction xs) (simp_all add: add_divide_distrib)

lemma ex_argsort:
  "argsort_desc [1 / 2, 3 / 10, 3 / 20, 1 / 20] = ([1 / 2, 3 / 10, 3 / 20, 1 / 20], [0, 1, 2, 3])"
  by (simp add: argsort_desc_def upt_rec)

lemma ex_topp_candidates:
  "topp_candidates default_generator [1 / 2, 3 / 10, 3 / 20, 1 / 20]
     = ([1 / 2, 3 / 10, 3 / 20, 0], [0, 1, 2, 3])"
proof -
  have t: "topp default_generator = 9 / 10"
    by (simp add: default_generator_def)
  show ?thesis
    by (simp add: topp_candidates_def ex_argsort cumsum_exclusive_def cast_bool_def t)
qed

text \<open>
  Claim C3. With \<open>sorted_probs\<close> and \<open>sorted_idx\<close> the result of sorting the probabilities in
  descending order (\<open>sorted_idx\<close> a permutation of the token ids), top-p sampling keeps at rank
  \<open>r\<close> the probability \<open>sorted_probs ! r\<close> exactly when the sum of the probabilities before
  rank \<open>r\<close> is strictly below \<^verbatim>\<open>topp\<close>, and 0 otherwise; it divides the kept probabilities by
  their sum (so that they sum to 1 when that sum is not 0), draws a rank from them and returns
  the token id \<open>sorted_idx\<close> has at that rank, leaving \<^verbatim>\<open>probs\<close> as it was. For the distribution
  0.5, 0.3, 0.15, 0.05 with \<^verbatim>\<open>topp = 0.9\<close> the first three tokens are kept and the fourth is
  not.
\<close>

theorem topp_sampling_candidates:
  assumes "argsort_desc probs = (sorted_probs, sorted_idx)"
  shows
    "length sorted_idx = length probs \<and> distinct sorted_idx \<and>
     set sorted_idx = {0..<length probs} \<and>
     sorted_probs = map (\<lambda>i. probs ! i) sorted_idx \<and>
     (\<forall>r s. r \<le> s \<and> s < length probs \<longrightarrow> sorted_probs ! s \<le> sorted_probs ! r) \<and>
     topp_candidates g probs =
       (map (\<lambda>r. if sum_list (take r sorted_probs) < topp g then sorted_probs ! r else 0)
          [0..<length probs], sorted_idx) \<and>
     topp_probs_of g probs =
       (map (\<lambda>c. c / sum_list (fst (topp_candidates g probs))) (fst (topp_candidates g probs)),
        sorted_idx) \<and>
     (sum_list (fst (topp_candidates g probs)) \<noteq> 0 \<longrightarrow>
        sum_list (fst (topp_probs_of g probs)) = 1) \<and>
     sampling_branch g ToppSampling sampling_id probs =
       (if sampling_id (fst (topp_probs_of g probs)) < length probs
        then Inr (sorted_idx ! sampling_id (fst (topp_probs_of g probs)), probs)
        else Inl InvalidArgument) \<and>
     topp_candidates default_generator [1 / 2, 3 / 10, 3 / 20, 1 / 20]
       = ([1 / 2, 3 / 10, 3 / 20, 0], [0, 1, 2, 3])"
proof -
  note idx = argsort_desc_idx [OF assms]
  have desc: "sorted_probs ! s \<le> sorted_probs ! r" if "r \<le> s \<and> s < length probs" for r s
    using that argsort_desc_descending [OF assms, of r s] by simp
  note cand = topp_candidates_eq [OF assms, of g]
  have pr: "topp_probs_of g probs =
       (map (\<lambda>c. c / sum_list (fst (topp_candidates g probs))) (fst (topp_candidates g probs)),
        sorted_idx)"
    by (simp add: topp_probs_of_def cand)
  have one: "sum_list (fst (topp_probs_of g probs)) = 1"
    if "sum_list (fst (topp_candidates g probs)) \<noteq> 0"
    using that by (simp add: pr sum_list_divide)
  have sb: "sampling_branch g ToppSampling sampling_id probs =
       (if sampling_id (fst (topp_probs_of g probs)) < length probs
        then Inr (sorted_idx ! sampling_id (fst (topp_probs_of g probs)), probs)
        else Inl InvalidArgument)"
    using idx(1) by (simp add: sampling_branch_def pr index_sample_def Let_def)
  show ?thesis
    using idx(1-4) desc cand pr one sb ex_topp_candidates by blast
qed

theorem topp_sampling_candidates_witness:
  "argsort_desc [1 / 2, 3 / 10, 3 / 20, 1 / 20] = ([1 / 2, 3 / 10, 3 / 20, 1 / 20], [0, 1, 2, 3]) \<and>
   topp_candidates default_generator [1 / 2, 3 / 10, 3 / 20, 1 / 20]
     = ([1 / 2, 3 / 10, 3 / 20, 0], [0, 1, 2, 3]) \<and>
   sum_list (fst (topp_probs_of default_generator [1 / 2, 3 / 10, 3 / 20, 1 / 20])) = 1 \<and>
   sampling_branch default_generator ToppSampling (\<lambda>p. 2) [1 / 2, 3 / 10, 3 / 20, 1 / 20]
     = Inr (2, [1 / 2, 3 / 10, 3 / 20, 1 / 20])"
proof -
  note t = topp_sampling_candidates [OF ex_argsort, of default_generator "\<lambda>p. 2"]
  have c: "topp_candidates default_generator [1 / 2, 3 / 10, 3 / 20, 1 / 20]
     = ([1 / 2, 3 / 10, 3 / 20, 0], [0, 1, 2, 3])"
    using t by blast
  have nz: "sum_list (fst (topp_candidates default_generator [1 / 2, 3 / 10, 3 / 20, 1 / 20])) \<noteq> 0"
    by (simp add: c)
  have one: "sum_list (fst (topp_probs_of default_generator [1 / 2, 3 / 10, 3 / 20, 1 / 20])) = 1"
    using t nz by blast
  have "sampling_branch default_generator ToppSampling (\<lambda>p. 2) [1 / 2, 3 / 10, 3 / 20, 1 / 20] =
       (if (2 :: nat) < length [1 / 2, 3 / 10, 3 / 20, 1 / 20 :: real]
        then Inr ([0, 1, 2, 3] ! 2, [1 / 2, 3 / 10, 3 / 20, 1 / 20])
        else Inl InvalidArgument)"
    using t by blast
  then have sb: "sampling_branch default_generator ToppSampling (\<lambda>p. 2) [1 / 2, 3 / 10, 3 / 20, 1 / 20]
     = Inr (2, [1 / 2, 3 / 10, 3 / 20, 1 / 20])"
    by simp
  show ?thesis
    using ex_argsort c one sb by blast
qed

subsection \<open>The pseudo beam-search step of the sampling strategies\<close>

lemma layers_topk_unique_max:
  assumes m: "m < length x" and mx: "\<forall>j < length x. j \<noteq> m \<longrightarrow> x ! j < x ! m"
  shows "layers_topk x 1 = Inr ([x ! m], [m])"
proof -
  obtain sx si where a: "argsort_desc x = (sx, si)"
    by (cases "argsort_desc x")
  note idx = argsort_desc_idx [OF a]
  have ne: "si \<noteq> []" using idx(1) m by auto
  then obtain h t where si: "si = h # t" by (cases si) auto
  have h: "h < length x" using idx(3) si by auto
  have "m \<in> set si" using idx(3) m by simp
  then have "- (x ! h) \<le> - (x ! m)"
    using idx(5) si by auto
  then have "h = m" using mx h by force
  then have "take 1 si = [m]" and "take 1 sx = [x ! m]"
    using si idx(4) by simp_all
  moreover have "x \<noteq> []" using m by auto
  ultimately show ?thesis
    by (simp add: layers_topk_def a)
qed

lemma sampling_scores_nth:
  assumes "sid < length probs" and "vocab_size g = int (length probs)"
  shows "\<exists>hot. one_hot sid (vocab_size g) = Inr hot \<and>
           length (sampling_scores_of hot probs) = length probs \<and>
           (\<forall>j < length probs.
              sampling_scores_of hot probs ! j = (if j = sid then probs ! sid else - 1000))"
  using assms by (simp add: one_hot_def sampling_scores_of_def cast_bool_def)

lemma beam_search_op_single: "beam_search_op 1 ([(i, s)] # []) = [(i, s, 0)]"
  by (simp add: beam_search_op_def tag_parents_def)

lemma sampling_branch_keeps_probs:
  "sampling_branch g b sampling_id probs = Inr (sid, probs') \<Longrightarrow> probs' = probs"
  by (auto simp: sampling_branch_def Let_def split: branch.splits sum.splits prod.splits)

lemma get_probs_pos: "j < length xs \<Longrightarrow> 0 < get_probs g xs ! j"
  using softmax_pos [of j "map (\<lambda>x. x / temperature g) xs"] by (simp add: get_probs_def)

lemma length_get_probs [simp]: "length (get_probs g xs) = length xs"
  by (simp add: get_probs_def softmax_def)

lemma select_branch_not_beam:
  "select_branch (decoding_strategy g) = Inr b \<Longrightarrow> b \<noteq> BeamSearch \<Longrightarrow> used_beam_size g = 1"
  by (auto simp: select_branch_def used_beam_size_def split: if_splits)

lemma topk_probs_of_eq:
  "topk_probs_of probs topk_probs =
     map (\<lambda>p. if last topk_probs \<le> p then p / sum_list topk_probs else 0) probs"
  by (simp add: topk_probs_of_def cast_bool_def map2_map_map [where f = "\<lambda>p. p", simplified] zip_same_conv_map)

lemma ex_get_probs:
  assumes "temperature g = 1" and "ngram_blocking g = 0" and "min_dec_len g = 3"
  shows "get_probs g
     (penalized_logits g (\<lambda>l f. l) [0, 0, - 1000000000, 0] [0, 0, 0, 0] 5 0 [ln 10, ln 6, ln 3, 0])
     = [1 / 2, 3 / 10, 3 / 20, 1 / 20]"
proof -
  have pl: "penalized_logits g (\<lambda>l f. l) [0, 0, - 1000000000, 0] [0, 0, 0, 0] 5 0
      [ln 10, ln 6, ln 3, 0] = [ln 10, ln 6, ln 3, 0]"
    by (simp add: penalized_logits_def token_stage_def length_stage_def min_len_stage_def
        finished_stage_def elementwise_add_def elementwise_sub_def assms)
  show ?thesis
    by (simp add: pl get_probs_def softmax_def assms)
qed

text \<open>
  Claim C7. Under a strategy other than beam search (plain, top-k or top-p sampling) and a
  positive temperature, with \<open>probs\<close> the softmax of the penalised logits over the whole
  vocabulary and \<open>sid\<close> the token id the branch draws. The draw is made from \<open>probs\<close> itself
  (plain), from \<open>probs\<close> with every entry below the k-th largest set to 0 and the others
  divided by the sum of the k largest (top-k), or from the renormalised top-p candidates, the
  drawn rank mapped through the sort permutation (top-p). The variable \<^verbatim>\<open>probs\<close> after the
  branch is \<open>probs\<close> again; the top 1 of the one-hot score row is the token \<open>sid\<close> with the
  score \<open>probs ! sid\<close>; and the beam-search merge with beam size 1 selects \<open>sid\<close>, with the
  accumulated score computed from \<open>probs ! sid\<close>, not from the truncated distribution.
\<close>

theorem sampled_token_scored_with_full_probability:
  assumes sb: "select_branch (decoding_strategy g) = Inr b" and nb: "b \<noteq> BeamSearch"
    and T: "0 < temperature g"
    and pr: "probs = get_probs g (penalized_logits g ngram eos_pen tok_pen step_idx is_finished logits)"
    and len: "vocab_size g = int (length probs)"
    and br: "sampling_branch g b sampling_id probs = Inr (sid, probs')"
    and sid: "sid < length probs"
  shows
    "probs' = probs \<and>
     (b = Sampling \<longrightarrow> sid = sampling_id probs) \<and>
     (b = TopkSampling \<longrightarrow>
        (\<exists>topk_probs topk_idx.
           layers_topk probs (topk g) = Inr (topk_probs, topk_idx) \<and>
           sid = sampling_id
             (map (\<lambda>p. if last topk_probs \<le> p then p / sum_list topk_probs else 0) probs))) \<and>
     (b = ToppSampling \<longrightarrow>
        sid = snd (topp_probs_of g probs) ! sampling_id (fst (topp_probs_of g probs))) \<and>
     select_proposals g b sampling_id probs = Inr ([probs ! sid], [sid]) \<and>
     sampling_iteration g b sampling_id ngram eos_pen tok_pen step_idx pre_score is_finished logits
       = Inr [(sid, score_step g step_idx (probs ! sid) pre_score is_finished, 0)]"
proof -
  have keep: "probs' = probs"
    using br by (rule sampling_branch_keeps_probs)
  have d1: "sid = sampling_id probs" if "b = Sampling"
    using br that by (auto simp: sampling_branch_def)
  have d2: "\<exists>topk_probs topk_idx.
           layers_topk probs (topk g) = Inr (topk_probs, topk_idx) \<and>
           sid = sampling_id
             (map (\<lambda>p. if last topk_probs \<le> p then p / sum_list topk_probs else 0) probs)"
    if "b = TopkSampling"
    using br that
    by (auto simp: sampling_branch_def Let_def topk_probs_of_eq split: sum.splits prod.splits)
  have d3: "sid = snd (topp_probs_of g probs) ! sampling_id (fst (topp_probs_of g probs))"
    if "b = ToppSampling"
    using br that
    by (auto simp: sampling_branch_def Let_def index_sample_def
        split: sum.splits prod.splits if_splits)
  obtain hot where hot: "one_hot sid (vocab_size g) = Inr hot"
    and lh: "length (sampling_scores_of hot probs) = length probs"
    and nth: "\<forall>j < length probs.
       sampling_scores_of hot probs ! j = (if j = sid then probs ! sid else - 1000)"
    using sampling_scores_nth [OF sid len] by blast
  have pos: "0 < probs ! sid"
    using sid unfolding pr by (intro get_probs_pos) simp
  let ?s = "sampling_scores_of hot probs"
  have "layers_topk ?s 1 = Inr ([?s ! sid], [sid])"
  proof (rule layers_topk_unique_max)
    show "sid < length ?s" using sid lh by simp
  next
    show "\<forall>j < length ?s. j \<noteq> sid \<longrightarrow> ?s ! j < ?s ! sid"
      using nth pos sid lh by simp
  qed
  then have top: "layers_topk ?s 1 = Inr ([probs ! sid], [sid])"
    using nth sid by simp
  have sel: "select_proposals g b sampling_id probs = Inr ([probs ! sid], [sid])"
    using nb br keep hot top by (cases b) (simp_all add: select_proposals_def)
  have "sampling_iteration g b sampling_id ngram eos_pen tok_pen step_idx pre_score is_finished logits
       = Inr (beam_search_op (used_beam_size g)
           [scored_proposals g step_idx pre_score is_finished ([probs ! sid], [sid])])"
    using sel by (simp add: sampling_iteration_def pr [symmetric] Let_def)
  then have it: "sampling_iteration g b sampling_id ngram eos_pen tok_pen step_idx pre_score
       is_finished logits
       = Inr [(sid, score_step g step_idx (probs ! sid) pre_score is_finished, 0)]"
    by (simp add: select_branch_not_beam [OF sb nb] scored_proposals_def beam_search_op_single)
  from keep d1 d2 d3 sel it show ?thesis by blast
qed

theorem sampled_token_scored_with_full_probability_witness:
  "get_probs topp_generator
     (penalized_logits topp_generator (\<lambda>l f. l) [0, 0, - 1000000000, 0] [0, 0, 0, 0] 5 0
        [ln 10, ln 6, ln 3, 0])
     = [1 / 2, 3 / 10, 3 / 20, 1 / 20] \<and>
   fst (topp_probs_of topp_generator [1 / 2, 3 / 10, 3 / 20, 1 / 20])
     = [10 / 19, 6 / 19, 3 / 19, 0] \<and>
   sampling_branch topp_generator ToppSampling (\<lambda>p. if p ! 3 = 0 then 1 else 3)
       [1 / 2, 3 / 10, 3 / 20, 1 / 20]
     = Inr (1, [1 / 2, 3 / 10, 3 / 20, 1 / 20]) \<and>
   sampling_iteration topp_generator ToppSampling (\<lambda>p. if p ! 3 = 0 then 1 else 3) (\<lambda>l f. l)
       [0, 0, - 1000000000, 0] [0, 0, 0, 0] 5 (- 1) 0 [ln 10, ln 6, ln 3, 0]
     = Inr [(1, score_step topp_generator 5 (3 / 10) (- 1) 0, 0)] \<and>
   topk_probs_of [1 / 2, 3 / 10, 3 / 20, 1 / 20] [1 / 2, 3 / 10] = [5 / 8, 3 / 8, 0, 0] \<and>
   sampling_branch topk_generator TopkSampling (\<lambda>p. if p ! 3 = 0 then 1 else 3)
       [1 / 2, 3 / 10, 3 / 20, 1 / 20]
     = Inr (1, [1 / 2, 3 / 10, 3 / 20, 1 / 20]) \<and>
   sampling_iteration topk_generator TopkSampling (\<lambda>p. if p ! 3 = 0 then 1 else 3) (\<lambda>l f. l)
       [0, 0, - 1000000000, 0] [0, 0, 0, 0] 5 (- 1) 0 [ln 10, ln 6, ln 3, 0]
     = Inr [(1, score_step topk_generator 5 (3 / 10) (- 1) 0, 0)]"
proof -
  let ?p = "[1 / 2, 3 / 10, 3 / 20, 1 / 20 :: real]"
  let ?s = "\<lambda>p :: real list. if p ! 3 = 0 then 1 else 3 :: nat"
  have gp: "decoding_strategy topp_generator = ''topp_sampling''" "vocab_size topp_generator = 4"
    "temperature topp_generator = 1" "min_dec_len topp_generator = 3"
    "ngram_blocking topp_generator = 0" "topp topp_generator = 9 / 10"
    by (simp_all add: topp_generator_def min3_generator_def default_generator_def)
  have gk: "decoding_strategy topk_generator = ''topk_sampling''" "vocab_size topk_generator = 4"
    "temperature topk_generator = 1" "min_dec_len topk_generator = 3"
    "ngram_blocking topk_generator = 0" "topk topk_generator = 2"
    by (simp_all add: topk_generator_def min3_generator_def default_generator_def)
  have as: "argsort_desc ?p = (?p, [0, 1, 2, 3])"
    by (rule ex_argsort)
  \<comment> \<open>top-p\<close>
  have sbp: "select_branch (decoding_strategy topp_generator) = Inr ToppSampling"
    by (simp add: gp select_branch_topp)
  have prp: "?p = get_probs topp_generator
     (penalized_logits topp_generator (\<lambda>l f. l) [0, 0, - 1000000000, 0] [0, 0, 0, 0] 5 0
        [ln 10, ln 6, ln 3, 0])"
    using ex_get_probs [OF gp(3) gp(5) gp(4)] by simp
  have tp: "topp_probs_of topp_generator ?p = ([10 / 19, 6 / 19, 3 / 19, 0], [0, 1, 2, 3])"
    by (simp add: topp_probs_of_def topp_candidates_def as cumsum_exclusive_def cast_bool_def gp)
  have brp: "sampling_branch topp_generator ToppSampling ?s ?p = Inr (1, ?p)"
    by (simp add: sampling_branch_def tp index_sample_def)
  have lenp: "vocab_size topp_generator = int (length ?p)" by (simp add: gp)
  have Tp: "0 < temperature topp_generator" by (simp add: gp)
  have sid: "(1 :: nat) < length ?p" by simp
  have "sampling_iteration topp_generator ToppSampling ?s (\<lambda>l f. l)
       [0, 0, - 1000000000, 0] [0, 0, 0, 0] 5 (- 1) 0 [ln 10, ln 6, ln 3, 0]
     = Inr [(1, score_step topp_generator 5 (?p ! 1) (- 1) 0, 0)]"
    using sampled_token_scored_with_full_probability [OF sbp _ Tp prp lenp brp sid, of "- 1"] by simp
  then have itp: "sampling_iteration topp_generator ToppSampling ?s (\<lambda>l f. l)
       [0, 0, - 1000000000, 0] [0, 0, 0, 0] 5 (- 1) 0 [ln 10, ln 6, ln 3, 0]
     = Inr [(1, score_step topp_generator 5 (3 / 10) (- 1) 0, 0)]"
    by simp
  \<comment> \<open>top-k\<close>
  have sbk: "select_branch (decoding_strategy topk_generator) = Inr TopkSampling"
    by (simp add: gk select_branch_def startswith_def)
  have prk: "?p = get_probs topk_generator
     (penalized_logits topk_generator (\<lambda>l f. l) [0, 0, - 1000000000, 0] [0, 0, 0, 0] 5 0
        [ln 10, ln 6, ln 3, 0])"
    using ex_get_probs [OF gk(3) gk(5) gk(4)] by simp
  have tk: "topk_probs_of ?p [1 / 2, 3 / 10] = [5 / 8, 3 / 8, 0, 0]"
    by (simp add: topk_probs_of_def cast_bool_def)
  have lt: "layers_topk ?p (topk topk_generator) = Inr ([1 / 2, 3 / 10], [0, 1])"
    by (simp add: layers_topk_def as gk)
  have brk: "sampling_branch topk_generator TopkSampling ?s ?p = Inr (1, ?p)"
    by (simp add: sampling_branch_def lt tk)
  have lenk: "vocab_size topk_generator = int (length ?p)" by (simp add: gk)
  have Tk: "0 < temperature topk_generator" by (simp add: gk)
  have "sampling_iteration topk_generator TopkSampling ?s (\<lambda>l f. l)
       [0, 0, - 1000000000, 0] [0, 0, 0, 0] 5 (- 1) 0 [ln 10, ln 6, ln 3, 0]
     = Inr [(1, score_step topk_generator 5 (?p ! 1) (- 1) 0, 0)]"
    using sampled_token_scored_with_full_probability [OF sbk _ Tk prk lenk brk sid, of "- 1"] by simp
  then have itk: "sampling_iteration topk_generator TopkSampling ?s (\<lambda>l f. l)
       [0, 0, - 1000000000, 0] [0, 0, 0, 0] 5 (- 1) 0 [ln 10, ln 6, ln 3, 0]
     = Inr [(1, score_step topk_generator 5 (3 / 10) (- 1) 0, 0)]"
    by simp
  show ?thesis
    using prp [symmetric] tp brp itp tk brk itk by simp
qed

end
